theory Spec2Isabelle
  imports Main "HOL-Library.Word"
begin

unbundle bit_operations_syntax

section \<open>Bytes, buffers and JavaScript strings\<close>

text \<open>
  A Node \<open>Buffer\<close> is a list of bytes. A JavaScript string is a list of UTF-16 code
  units. Short opaque values that the program only passes around and compares (error
  messages, access tokens, object identifiers) are plain \<open>string\<close>s.
\<close>

type_synonym byte = "8 word"
type_synonym buffer = "byte list"
type_synonym js_string = "16 word list"

datatype js_error =
    Error string
  | RangeError string
  | TypeError string
  | SyntaxError string

definition bindE :: "js_error + 'a \<Rightarrow> ('a \<Rightarrow> js_error + 'b) \<Rightarrow> js_error + 'b" where
  "bindE m f = (case m of Inl e \<Rightarrow> Inl e | Inr x \<Rightarrow> f x)"

definition js_of :: "string \<Rightarrow> js_string" where
  "js_of s = map (\<lambda>c. word_of_nat (of_char c)) s"

subsection \<open>UTF-8, as \<open>Buffer.from(str, 'utf-8')\<close> and \<open>buf.toString('utf-8')\<close> compute it\<close>

definition is_high_surrogate :: "16 word \<Rightarrow> bool" where
  "is_high_surrogate u = (0xD800 \<le> u \<and> u \<le> 0xDBFF)"

definition is_low_surrogate :: "16 word \<Rightarrow> bool" where
  "is_low_surrogate u = (0xDC00 \<le> u \<and> u \<le> 0xDFFF)"

definition utf8_of_code_point :: "nat \<Rightarrow> buffer" where
  "utf8_of_code_point cp =
     (if cp < 0x80 then [word_of_nat cp]
      else if cp < 0x800 then
        [word_of_nat (0xC0 + cp div 64), word_of_nat (0x80 + cp mod 64)]
      else if cp < 0x10000 then
        [word_of_nat (0xE0 + cp div 4096), word_of_nat (0x80 + (cp div 64) mod 64),
         word_of_nat (0x80 + cp mod 64)]
      else
        [word_of_nat (0xF0 + cp div 262144), word_of_nat (0x80 + (cp div 4096) mod 64),
         word_of_nat (0x80 + (cp div 64) mod 64), word_of_nat (0x80 + cp mod 64)])"

text \<open>
  Encoding: a surrogate pair is one code point of four bytes, a lone surrogate is
  replaced by U+FFFD, every other code unit is a code point of its own.
\<close>

fun utf8_encode :: "js_string \<Rightarrow> buffer" where
  "utf8_encode [] = []"
| "utf8_encode [u] =
     (if is_high_surrogate u \<or> is_low_surrogate u then utf8_of_code_point 0xFFFD
      else utf8_of_code_point (unat u))"
| "utf8_encode (u # v # rest) =
     (if is_high_surrogate u then
        (if is_low_surrogate v then
           utf8_of_code_point (0x10000 + (unat u - 0xD800) * 1024 + (unat v - 0xDC00))
             @ utf8_encode rest
         else utf8_of_code_point 0xFFFD @ utf8_encode (v # rest))
      else if is_low_surrogate u then utf8_of_code_point 0xFFFD @ utf8_encode (v # rest)
      else utf8_of_code_point (unat u) @ utf8_encode (v # rest))"

definition code_units_of :: "nat \<Rightarrow> js_string" where
  "code_units_of cp =
     (if cp < 0x10000 then [word_of_nat cp]
      else [word_of_nat (0xD800 + (cp - 0x10000) div 1024),
            word_of_nat (0xDC00 + (cp - 0x10000) mod 1024)])"

definition is_cont :: "byte \<Rightarrow> byte \<Rightarrow> byte \<Rightarrow> bool" where
  "is_cont lo hi b = (lo \<le> b \<and> b \<le> hi)"

text \<open>
  Decoding replaces every maximal ill-formed prefix by one U+FFFD and goes on with the
  byte that ended it, so every buffer decodes to some string.
\<close>

fun utf8_decode :: "buffer \<Rightarrow> js_string" where
  "utf8_decode [] = []"
| "utf8_decode (b0 # rest) =
     (if b0 < 0x80 then ucast b0 # utf8_decode rest
      else if 0xC2 \<le> b0 \<and> b0 \<le> 0xDF then
        (case rest of
           b1 # r1 \<Rightarrow>
             (if is_cont 0x80 0xBF b1 then
                code_units_of ((unat b0 - 0xC0) * 64 + (unat b1 - 0x80)) @ utf8_decode r1
              else 0xFFFD # utf8_decode rest)
         | [] \<Rightarrow> [0xFFFD])
      else if 0xE0 \<le> b0 \<and> b0 \<le> 0xEF then
        (case rest of
           b1 # r1 \<Rightarrow>
             (if is_cont (if b0 = 0xE0 then 0xA0 else 0x80) (if b0 = 0xED then 0x9F else 0xBF) b1
              then
                (case r1 of
                   b2 # r2 \<Rightarrow>
                     (if is_cont 0x80 0xBF b2 then
                        code_units_of
                          ((unat b0 - 0xE0) * 4096 + (unat b1 - 0x80) * 64 + (unat b2 - 0x80))
                          @ utf8_decode r2
                      else 0xFFFD # utf8_decode r1)
                 | [] \<Rightarrow> [0xFFFD])
              else 0xFFFD # utf8_decode rest)
         | [] \<Rightarrow> [0xFFFD])
      else if 0xF0 \<le> b0 \<and> b0 \<le> 0xF4 then
        (case rest of
           b1 # r1 \<Rightarrow>
             (if is_cont (if b0 = 0xF0 then 0x90 else 0x80) (if b0 = 0xF4 then 0x8F else 0xBF) b1
              then
                (case r1 of
                   b2 # r2 \<Rightarrow>
                     (if is_cont 0x80 0xBF b2 then
                        (case r2 of
                           b3 # r3 \<Rightarrow>
                             (if is_cont 0x80 0xBF b3 then
                                code_units_of
                                  ((unat b0 - 0xF0) * 262144 + (unat b1 - 0x80) * 4096
                                    + (unat b2 - 0x80) * 64 + (unat b3 - 0x80))
                                  @ utf8_decode r3
                              else 0xFFFD # utf8_decode r2)
                         | [] \<Rightarrow> [0xFFFD])
                      else 0xFFFD # utf8_decode r1)
                 | [] \<Rightarrow> [0xFFFD])
              else 0xFFFD # utf8_decode rest)
         | [] \<Rightarrow> [0xFFFD])
      else 0xFFFD # utf8_decode rest)"

text \<open>
  A string is well formed when its surrogates come in pairs, a high one followed by a low
  one. These are the strings that UTF-8 encodes without replacement.
\<close>

fun well_formed_utf16 :: "js_string \<Rightarrow> bool" where
  "well_formed_utf16 [] = True"
| "well_formed_utf16 [u] = (\<not> is_high_surrogate u \<and> \<not> is_low_surrogate u)"
| "well_formed_utf16 (u # v # rest) =
     (if is_high_surrogate u then is_low_surrogate v \<and> well_formed_utf16 rest
      else \<not> is_low_surrogate u \<and> well_formed_utf16 (v # rest))"

subsection \<open>SHA-256 (FIPS 180-4), as \<open>crypto.createHash('sha256')\<close> computes it\<close>

text \<open>The sixty-four round constants, in decimal.\<close>

definition sha256_K :: "32 word list" where
  "sha256_K =
    [1116352408, 1899447441, 3049323471, 3921009573, 961987163, 1508970993,
     2453635748, 2870763221, 3624381080, 310598401, 607225278, 1426881987,
     1925078388, 2162078206, 2614888103, 3248222580, 3835390401, 4022224774,
     264347078, 604807628, 770255983, 1249150122, 1555081692, 1996064986,
     2554220882, 2821834349, 2952996808, 3210313671, 3336571891, 3584528711,
     113926993, 338241895, 666307205, 773529912, 1294757372, 1396182291,
     1695183700, 1986661051, 2177026350, 2456956037, 2730485921, 2820302411,
     3259730800, 3345764771, 3516065817, 3600352804, 4094571909, 275423344,
     430227734, 506948616, 659060556, 883997877, 958139571, 1322822218,
     1537002063, 1747873779, 1955562222, 2024104815, 2227730452, 2361852424,
     2428436474, 2756734187, 3204031479, 3329325298]"

type_synonym sha_state =
  "32 word \<times> 32 word \<times> 32 word \<times> 32 word \<times> 32 word \<times> 32 word \<times> 32 word \<times> 32 word"

definition sha256_init :: sha_state where
  "sha256_init =
    (0x6a09e667, 0xbb67ae85, 0x3c6ef372, 0xa54ff53a, 0x510e527f, 0x9b05688c, 0x1f83d9ab, 0x5be0cd19)"

definition sha_ch :: "32 word \<Rightarrow> 32 word \<Rightarrow> 32 word \<Rightarrow> 32 word" where
  "sha_ch x y z = (x AND y) XOR (NOT x AND z)"

definition sha_maj :: "32 word \<Rightarrow> 32 word \<Rightarrow> 32 word \<Rightarrow> 32 word" where
  "sha_maj x y z = (x AND y) XOR (x AND z) XOR (y AND z)"

definition sha_bsig0 :: "32 word \<Rightarrow> 32 word" where
  "sha_bsig0 x = word_rotr 2 x XOR word_rotr 13 x XOR word_rotr 22 x"

definition sha_bsig1 :: "32 word \<Rightarrow> 32 word" where
  "sha_bsig1 x = word_rotr 6 x XOR word_rotr 11 x XOR word_rotr 25 x"

definition sha_ssig0 :: "32 word \<Rightarrow> 32 word" where
  "sha_ssig0 x = word_rotr 7 x XOR word_rotr 18 x XOR drop_bit 3 x"

definition sha_ssig1 :: "32 word \<Rightarrow> 32 word" where
  "sha_ssig1 x = word_rotr 17 x XOR word_rotr 19 x XOR drop_bit 10 x"

fun sha_schedule :: "nat \<Rightarrow> 32 word list \<Rightarrow> 32 word list" where
  "sha_schedule 0 ws = ws"
| "sha_schedule (Suc n) ws =
     (let l = length ws in
      sha_schedule n
        (ws @ [sha_ssig1 (ws ! (l - 2)) + ws ! (l - 7) + sha_ssig0 (ws ! (l - 15)) + ws ! (l - 16)]))"

definition sha_round :: "sha_state \<Rightarrow> 32 word \<times> 32 word \<Rightarrow> sha_state" where
  "sha_round s kw =
     (case s of (a, b, c, d, e, f, g, h) \<Rightarrow>
        (let t1 = h + sha_bsig1 e + sha_ch e f g + fst kw + snd kw;
             t2 = sha_bsig0 a + sha_maj a b c
         in (t1 + t2, a, b, c, d + t1, e, f, g)))"

definition sha_add :: "sha_state \<Rightarrow> sha_state \<Rightarrow> sha_state" where
  "sha_add s t =
     (case s of (a, b, c, d, e, f, g, h) \<Rightarrow>
      case t of (a', b', c', d', e', f', g', h') \<Rightarrow>
        (a + a', b + b', c + c', d + d', e + e', f + f', g + g', h + h'))"

fun be_words :: "buffer \<Rightarrow> 32 word list" where
  "be_words (b0 # b1 # b2 # b3 # rest) =
     (push_bit 24 (ucast b0) OR push_bit 16 (ucast b1) OR push_bit 8 (ucast b2) OR ucast b3)
       # be_words rest"
| "be_words _ = []"

definition sha_compress :: "sha_state \<Rightarrow> buffer \<Rightarrow> sha_state" where
  "sha_compress s block =
     sha_add s (foldl sha_round s (zip sha256_K (sha_schedule 48 (be_words block))))"

definition sha_pad :: "buffer \<Rightarrow> buffer" where
  "sha_pad m =
     m @ [0x80] @ replicate ((119 - length m mod 64) mod 64) 0
       @ map (\<lambda>i. ucast (drop_bit (8 * (7 - i)) (word_of_nat (8 * length m) :: 64 word))) [0..<8]"

fun sha_blocks :: "nat \<Rightarrow> buffer \<Rightarrow> buffer list" where
  "sha_blocks 0 m = []"
| "sha_blocks (Suc n) m = take 64 m # sha_blocks n (drop 64 m)"

definition sha256 :: "buffer \<Rightarrow> sha_state" where
  "sha256 m =
     (let p = sha_pad m in foldl sha_compress sha256_init (sha_blocks (length p div 64) p))"

definition hex_digit :: "nat \<Rightarrow> 16 word" where
  "hex_digit n = word_of_nat (if n < 10 then 48 + n else 87 + n)"

definition hex32 :: "32 word \<Rightarrow> js_string" where
  "hex32 w = map (\<lambda>i. hex_digit (unat (drop_bit (4 * (7 - i)) w AND 0xF))) [0..<8]"

definition sha256_hex :: "buffer \<Rightarrow> js_string" where
  "sha256_hex m =
     (case sha256 m of (a, b, c, d, e, f, g, h) \<Rightarrow>
        hex32 a @ hex32 b @ hex32 c @ hex32 d @ hex32 e @ hex32 f @ hex32 g @ hex32 h)"

section \<open>The container codec (\<open>src/main/main.ts\<close>, lines 108 to 172)\<close>

subsection \<open>The Buffer operations the codec calls\<close>

definition Buffer_alloc :: "nat \<Rightarrow> buffer" where
  "Buffer_alloc n = replicate n 0"

text \<open>
  \<open>Buffer.from(x, 'utf-8')\<close>: \<open>None\<close> is JavaScript's \<open>undefined\<close>, which is not
  a string and makes \<open>Buffer.from\<close> throw a TypeError.
\<close>

definition Buffer_from :: "js_string option \<Rightarrow> js_error + buffer" where
  "Buffer_from x =
     (case x of
        None \<Rightarrow> Inl (TypeError ''The first argument must be of type string'')
      | Some s \<Rightarrow> Inr (utf8_encode s))"

text \<open>\<open>src.copy(target, targetStart)\<close> copies what fits and never grows the target.\<close>

definition Buffer_copy :: "buffer \<Rightarrow> buffer \<Rightarrow> nat \<Rightarrow> buffer" where
  "Buffer_copy src target targetStart =
     (let n = min (length src) (length target - targetStart)
      in take targetStart target @ take n src @ drop (targetStart + n) target)"

definition Buffer_slice :: "buffer \<Rightarrow> nat \<Rightarrow> nat \<Rightarrow> buffer" where
  "Buffer_slice buf start fin = drop start (take fin buf)"

definition Buffer_concat :: "buffer list \<Rightarrow> buffer" where
  "Buffer_concat bufs = concat bufs"

definition le_bytes :: "nat \<Rightarrow> 'a::len word \<Rightarrow> buffer" where
  "le_bytes n w = map (\<lambda>i. ucast (drop_bit (8 * i) w)) [0..<n]"

definition le_word :: "buffer \<Rightarrow> 'a::len word" where
  "le_word bs = foldr (\<lambda>b acc. push_bit 8 acc OR ucast b) bs 0"

definition write_at :: "buffer \<Rightarrow> nat \<Rightarrow> buffer \<Rightarrow> buffer" where
  "write_at buf offset bs = take offset buf @ bs @ drop (offset + length bs) buf"

text \<open>
  The integer writes check the value's range first and the offset second; both failures
  are RangeErrors (the messages are abridged to Node's error code and the argument).
\<close>

definition writeUInt8 :: "buffer \<Rightarrow> int \<Rightarrow> nat \<Rightarrow> js_error + buffer" where
  "writeUInt8 buf v offset =
     (if v < 0 \<or> 255 < v then Inl (RangeError ''ERR_OUT_OF_RANGE: value'')
      else if length buf < offset + 1 then Inl (RangeError ''ERR_OUT_OF_RANGE: offset'')
      else Inr (write_at buf offset [word_of_int v]))"

definition writeBigInt64LE :: "buffer \<Rightarrow> int \<Rightarrow> nat \<Rightarrow> js_error + buffer" where
  "writeBigInt64LE buf v offset =
     (if v < - 9223372036854775808 \<or> 9223372036854775807 < v
      then Inl (RangeError ''ERR_OUT_OF_RANGE: value'')
      else if length buf < offset + 8 then Inl (RangeError ''ERR_OUT_OF_RANGE: offset'')
      else Inr (write_at buf offset (le_bytes 8 (word_of_int v :: 64 word))))"

definition writeUInt32LE :: "buffer \<Rightarrow> int \<Rightarrow> nat \<Rightarrow> js_error + buffer" where
  "writeUInt32LE buf v offset =
     (if v < 0 \<or> 4294967295 < v then Inl (RangeError ''ERR_OUT_OF_RANGE: value'')
      else if length buf < offset + 4 then Inl (RangeError ''ERR_OUT_OF_RANGE: offset'')
      else Inr (write_at buf offset (le_bytes 4 (word_of_int v :: 32 word))))"

definition readUInt8 :: "buffer \<Rightarrow> nat \<Rightarrow> js_error + nat" where
  "readUInt8 buf offset =
     (if length buf < offset + 1 then Inl (RangeError ''ERR_OUT_OF_RANGE: offset'')
      else Inr (unat (buf ! offset)))"

definition readBigInt64LE :: "buffer \<Rightarrow> nat \<Rightarrow> js_error + int" where
  "readBigInt64LE buf offset =
     (if length buf < offset + 8 then Inl (RangeError ''ERR_OUT_OF_RANGE: offset'')
      else Inr (sint (le_word (take 8 (drop offset buf)) :: 64 word)))"

definition readUInt32LE :: "buffer \<Rightarrow> nat \<Rightarrow> js_error + nat" where
  "readUInt32LE buf offset =
     (if length buf < offset + 4 then Inl (RangeError ''ERR_OUT_OF_RANGE: offset'')
      else Inr (unat (le_word (take 4 (drop offset buf)) :: 32 word)))"

subsection \<open>What the codec takes from the JavaScript runtime\<close>

text \<open>
  \<open>JSON.stringify\<close>, \<open>JSON.parse\<close> and the rendering of a time value by
  \<open>Date.prototype.toISOString\<close> are the runtime's, not the repository's: the codec is
  given them. \<open>JSON_stringify\<close> can throw (\<open>Inl\<close>) or return \<open>undefined\<close> (\<open>Inr None\<close>);
  \<open>JSON_parse\<close> can throw a SyntaxError. The type \<open>'v\<close> is that of JavaScript values.
\<close>

record 'v platform =
  JSON_stringify :: "'v \<Rightarrow> js_error + js_string option"
  JSON_parse :: "js_string \<Rightarrow> js_error + 'v"
  toISOString :: "int \<Rightarrow> js_string"

text \<open>
  \<open>new Date(Number(t)).toISOString()\<close> for a BigInt \<open>t\<close>: a time value beyond
  8.64e15 ms from the epoch is an invalid date, on which \<open>toISOString\<close> throws a
  RangeError. \<open>Number(t)\<close> rounds only beyond 2^53, monotonically, so the test on the
  exact integer decides the same, and within the range the conversion is exact.
\<close>

definition Date_toISOString :: "'v platform \<Rightarrow> int \<Rightarrow> js_error + js_string" where
  "Date_toISOString P t =
     (if \<bar>t\<bar> \<le> 8640000000000000 then Inr (toISOString P t)
      else Inl (RangeError ''Invalid time value''))"

subsection \<open>\<open>createKolpFile\<close> and \<open>parseKolpFile\<close>\<close>

definition KOLP_MAGIC :: buffer where
  "KOLP_MAGIC = utf8_encode (js_of ''KOLP'')"

definition KOLP_VERSION :: int where
  "KOLP_VERSION = 1"

record 'v KolpFile =
  version :: nat
  timestamp :: js_string
  checksum :: js_string
  data :: 'v

text \<open>\<open>now\<close> is what \<open>Date.now()\<close> returns during the call.\<close>

definition createKolpFile :: "'v platform \<Rightarrow> int \<Rightarrow> 'v \<Rightarrow> js_error + buffer" where
  "createKolpFile P now d =
     bindE (JSON_stringify P d) (\<lambda>jsonData.
     bindE (Buffer_from jsonData) (\<lambda>compressed.
       let checksum = sha256_hex compressed;
           timestamp = now;
           header0 = Buffer_alloc 49;
           header1 = Buffer_copy KOLP_MAGIC header0 0
       in
     bindE (writeUInt8 header1 KOLP_VERSION 4) (\<lambda>header2.
     bindE (writeBigInt64LE header2 timestamp 5) (\<lambda>header3.
       let header4 = Buffer_copy (utf8_encode (take 32 checksum)) header3 13 in
     bindE (writeUInt32LE header4 (int (length compressed)) 45) (\<lambda>header5.
       Inr (Buffer_concat [header5, compressed]))))))"

text \<open>The body of the \<open>try\<close> block: \<open>Inl e\<close> is the exception \<open>e\<close> it throws.\<close>

definition parseKolpFile_try :: "'v platform \<Rightarrow> buffer \<Rightarrow> js_error + 'v KolpFile" where
  "parseKolpFile_try P buf =
     (if utf8_decode (Buffer_slice buf 0 4) \<noteq> js_of ''KOLP''
      then Inl (Error ''Invalid KOLP file format'')
      else
        bindE (readUInt8 buf 4) (\<lambda>version.
        bindE (readBigInt64LE buf 5) (\<lambda>timestamp.
          let checksumStored = utf8_decode (Buffer_slice buf 13 45) in
        bindE (readUInt32LE buf 45) (\<lambda>dataLength.
          let dataBuffer = Buffer_slice buf 49 (49 + dataLength);
              checksumCalculated = take 32 (sha256_hex dataBuffer)
          in
            if checksumStored \<noteq> checksumCalculated
            then Inl (Error ''Checksum verification failed'')
            else
              bindE (JSON_parse P (utf8_decode dataBuffer)) (\<lambda>d.
              bindE (Date_toISOString P timestamp) (\<lambda>iso.
                Inr \<lparr>version = version, timestamp = iso,
                     checksum = checksumStored, data = d\<rparr>))))))"

text \<open>
  The \<open>catch\<close> clause logs the exception and returns \<open>null\<close>, whatever was thrown.
\<close>

definition parseKolpFile :: "'v platform \<Rightarrow> buffer \<Rightarrow> 'v KolpFile option" where
  "parseKolpFile P buf =
     (case parseKolpFile_try P buf of Inl e \<Rightarrow> None | Inr r \<Rightarrow> Some r)"

text \<open>
  The slice of a buffer that the decoder hashes and parses: from byte 49, as many bytes
  as the length field declares, or fewer when the buffer ends before.
\<close>

definition declared_payload :: "buffer \<Rightarrow> buffer" where
  "declared_payload buf =
     Buffer_slice buf 49 (49 + unat (le_word (take 4 (drop 45 buf)) :: 32 word))"

section \<open>Credentials, token refresh and the sync handlers (lines 22 to 71 and 316 to 734)\<close>

subsection \<open>Local files, the outside world and the calls made\<close>

record GoogleTokens =
  access_token :: string
  refresh_token :: string
  expiry_date :: int
  email :: "string option"

record GoogleCredentials =
  clientId :: string
  clientSecret :: string

text \<open>
  What comes back from a request, as far as the code tells the cases apart: a body that
  \<open>JSON.parse\<close> accepts, with the fields the code reads (a missing field is \<open>None\<close>); a
  body it rejects; or the request's \<open>error\<close> event. A download hands on whatever bytes
  arrive, of any status.
\<close>

datatype token_reply =
    TokenJson "string option" int
  | TokenUnparsable
  | TokenNetError string

datatype list_reply =
    ListJson "string list option"
  | ListUnparsable
  | ListNetError string

datatype delete_reply =
    DeleteStatus nat
  | DeleteNetError string

datatype upload_reply =
    UploadJson "string option" "string option"
  | UploadUnparsable
  | UploadNetError string

datatype download_reply =
    DownloadBody buffer
  | DownloadNetError string

text \<open>
  The outside world is a state \<open>'r\<close> that the program cannot see, with one transition per
  kind of request, the clock that \<open>Date.now()\<close> reads, and the faults of the two files
  the handlers write: a failing \<open>fs.writeFileSync\<close> throws with a message and leaves the
  file with some content or none. Nothing is assumed of any of them. A listing request
  is given by its access token and its path.
\<close>

record 'r env =
  now_of :: "'r \<Rightarrow> int"
  token_endpoint :: "GoogleCredentials \<Rightarrow> string \<Rightarrow> 'r \<Rightarrow> token_reply \<times> 'r"
  files_list :: "string \<Rightarrow> string \<Rightarrow> 'r \<Rightarrow> list_reply \<times> 'r"
  files_delete :: "string \<Rightarrow> string \<Rightarrow> 'r \<Rightarrow> delete_reply \<times> 'r"
  files_upload :: "string \<Rightarrow> js_string \<Rightarrow> string \<Rightarrow> buffer \<Rightarrow> 'r \<Rightarrow> upload_reply \<times> 'r"
  files_get_media :: "string \<Rightarrow> string \<Rightarrow> 'r \<Rightarrow> download_reply \<times> 'r"
  backup_write_fault :: "'r \<Rightarrow> (string \<times> buffer option) option"
  tokens_write_fault :: "'r \<Rightarrow> (string \<times> GoogleTokens option) option"

text \<open>
  The calls a handler makes, in order; a request that Node refuses to send is not among
  them. \<open>FindKolpFile\<close> carries the access token, the path and what
  \<open>findKolpFileInDrive\<close> resolved to.
\<close>

datatype event =
    RefreshCall
  | TokenPost GoogleCredentials string
  | FindKolpFile string string "string option"
  | FilesDelete string string
  | FilesUpload string js_string buffer
  | FilesGet string string
  | WriteBackup buffer
  | WriteTokens GoogleTokens

record 'r world =
  token_file :: "GoogleTokens option"
  credentials_file :: "GoogleCredentials option"
  backup_file :: "buffer option"
  remote :: 'r
  trace :: "event list"

text \<open>
  A computation runs on the world and ends with a value or with a thrown exception,
  keeping the effects made until then.
\<close>

type_synonym ('a, 'r) io = "'r world \<Rightarrow> (js_error + 'a) \<times> 'r world"

definition returnIO :: "'a \<Rightarrow> ('a, 'r) io" where
  "returnIO x w = (Inr x, w)"

definition bindIO :: "('a, 'r) io \<Rightarrow> ('a \<Rightarrow> ('b, 'r) io) \<Rightarrow> ('b, 'r) io" where
  "bindIO m f w = (case m w of (Inl e, w') \<Rightarrow> (Inl e, w') | (Inr x, w') \<Rightarrow> f x w')"

definition liftE :: "js_error + 'a \<Rightarrow> ('a, 'r) io" where
  "liftE r w = (r, w)"

definition emit :: "event \<Rightarrow> (unit, 'r) io" where
  "emit e w = (Inr (), w\<lparr>trace := trace w @ [e]\<rparr>)"

definition request :: "('r \<Rightarrow> 'a \<times> 'r) \<Rightarrow> ('a, 'r) io" where
  "request f w = (case f (remote w) of (reply, r') \<Rightarrow> (Inr reply, w\<lparr>remote := r'\<rparr>))"

definition Date_now :: "'r env \<Rightarrow> (int, 'r) io" where
  "Date_now N w = (Inr (now_of N (remote w)), w)"

definition message_of :: "js_error \<Rightarrow> string" where
  "message_of e = (case e of Error m \<Rightarrow> m | RangeError m \<Rightarrow> m | TypeError m \<Rightarrow> m
                   | SyntaxError m \<Rightarrow> m)"

text \<open>JavaScript's truthiness of a value that is a string, \<open>null\<close> or \<open>undefined\<close>.\<close>

definition truthy :: "string option \<Rightarrow> bool" where
  "truthy x = (case x of None \<Rightarrow> False | Some s \<Rightarrow> s \<noteq> [])"

datatype 'a reply = Success 'a | Failure string

subsection \<open>The credential store\<close>

definition loadTokens :: "(GoogleTokens option, 'r) io" where
  "loadTokens w = (Inr (token_file w), w)"

definition saveTokens :: "'r env \<Rightarrow> GoogleTokens \<Rightarrow> (unit, 'r) io" where
  "saveTokens N tokens w =
     (let w1 = w\<lparr>trace := trace w @ [WriteTokens tokens]\<rparr> in
      case tokens_write_fault N (remote w) of
        None \<Rightarrow> (Inr (), w1\<lparr>token_file := Some tokens\<rparr>)
      | Some (msg, left) \<Rightarrow> (Inl (Error msg), w1\<lparr>token_file := left\<rparr>))"

definition loadCredentials :: "(GoogleCredentials option, 'r) io" where
  "loadCredentials w = (Inr (credentials_file w), w)"

text \<open>\<open>fs.writeFileSync(kolpFilePath(), buf)\<close>.\<close>

definition write_kolp_file :: "'r env \<Rightarrow> buffer \<Rightarrow> (unit, 'r) io" where
  "write_kolp_file N buf w =
     (let w1 = w\<lparr>trace := trace w @ [WriteBackup buf]\<rparr> in
      case backup_write_fault N (remote w) of
        None \<Rightarrow> (Inr (), w1\<lparr>backup_file := Some buf\<rparr>)
      | Some (msg, left) \<Rightarrow> (Inl (Error msg), w1\<lparr>backup_file := left\<rparr>))"

subsection \<open>What Node checks before it sends a request\<close>

text \<open>
  \<open>https.request\<close> and \<open>https.get\<close> construct a \<open>ClientRequest\<close>, and the constructor
  throws a \<open>TypeError\<close> before anything is sent: first when the path has a character
  outside U+0021 to U+00FF (a space, a control character), then when the value of a
  header has a control character other than the tab. The four remote operations call
  them inside the executor of \<open>new Promise\<close>, where an exception rejects the promise.
  Access tokens and identifiers are strings of characters up to U+00FF here.
\<close>

definition invalid_path_char :: "char \<Rightarrow> bool" where
  "invalid_path_char c = ((of_char c :: nat) < 0x21)"

definition invalid_header_char :: "char \<Rightarrow> bool" where
  "invalid_header_char c =
     ((of_char c :: nat) \<noteq> 9 \<and> ((of_char c :: nat) < 0x20 \<or> (of_char c :: nat) = 0x7F))"

definition ClientRequest :: "string \<Rightarrow> string \<Rightarrow> js_error + unit" where
  \<open>ClientRequest path authorization =
     (if list_ex invalid_path_char path then
        Inl (TypeError ''Request path contains unescaped characters'')
      else if list_ex invalid_header_char authorization then
        Inl (TypeError ''Invalid character in header content ["Authorization"]'')
      else Inr ())\<close>

text \<open>
  \<open>encodeURIComponent\<close> keeps the letters, the digits and \<open>- _ . ! ~ * ' ( )\<close> and writes
  every other character as the bytes of its UTF-8 encoding, each as \<open>%\<close> and two
  hexadecimal digits.
\<close>

definition uri_unreserved :: "char \<Rightarrow> bool" where
  "uri_unreserved c =
     (c \<in> set ''ABCDEFGHIJKLMNOPQRSTUVWXYZabcdefghijklmnopqrstuvwxyz0123456789-_.!~*()''
      \<or> c = CHR 0x27)"

definition percent :: "nat \<Rightarrow> string" where
  "percent b = [CHR ''%'', ''0123456789ABCDEF'' ! (b div 16), ''0123456789ABCDEF'' ! (b mod 16)]"

definition encodeURIComponent :: "string \<Rightarrow> string" where
  "encodeURIComponent s =
     concat (map (\<lambda>c. if uri_unreserved c then [c]
                       else if (of_char c :: nat) < 0x80 then percent (of_char c)
                       else percent (0xC0 + of_char c div 64) @ percent (0x80 + of_char c mod 64))
               s)"

subsection \<open>\<open>refreshAccessToken\<close> and the four remote operations\<close>

text \<open>
  \<open>refreshAccessToken\<close> resolves to the new access token or to \<open>null\<close> and never rejects:
  its path is \<open>/token\<close> and its headers are constants, and an exception of \<open>saveTokens\<close>
  inside the response handler is caught there.
\<close>

definition refreshAccessToken :: "'r env \<Rightarrow> (string option, 'r) io" where
  "refreshAccessToken N =
     bindIO (emit RefreshCall) (\<lambda>_.
     bindIO loadTokens (\<lambda>tokens.
     bindIO loadCredentials (\<lambda>credentials.
       case tokens of
         None \<Rightarrow> returnIO None
       | Some t \<Rightarrow>
          (case credentials of
             None \<Rightarrow> returnIO None
           | Some c \<Rightarrow>
               if refresh_token t = [] then returnIO None
               else
                 bindIO (emit (TokenPost c (refresh_token t))) (\<lambda>_.
                 bindIO (request (token_endpoint N c (refresh_token t))) (\<lambda>response.
                   case response of
                     TokenJson at expires_in \<Rightarrow>
                       if truthy at then
                         bindIO (Date_now N) (\<lambda>now.
                           (\<lambda>w. case saveTokens N
                                     (t\<lparr>access_token := the at,
                                        expiry_date := now + expires_in * 1000\<rparr>) w of
                                  (Inl e, w') \<Rightarrow> (Inr None, w')
                                | (Inr u, w') \<Rightarrow> (Inr at, w')))
                       else returnIO None
                   | TokenUnparsable \<Rightarrow> returnIO None
                   | TokenNetError m \<Rightarrow> returnIO None))))))"

text \<open>
  The path that \<open>findKolpFileInDrive\<close> gives to \<open>https.get\<close> (line 416): the filter goes
  through \<open>encodeURIComponent\<close>, the rest of the template is taken as written, with the
  space of \<open>modifiedTime desc\<close>.
\<close>

definition find_path :: string where
  "find_path =
     ''/drive/v3/files?q=''
       @ encodeURIComponent
           ''name contains 'kolp_backup' and mimeType='application/octet-stream' and trashed=false''
       @ ''&orderBy=modifiedTime desc&pageSize=1''"

text \<open>
  What the response handler of \<open>findKolpFileInDrive\<close> resolves to (lines 420 to 435):
  the identifier of the first file of the listing, or \<open>null\<close>.
\<close>

definition first_file_id :: "list_reply \<Rightarrow> string option" where
  "first_file_id response =
     (case response of
        ListJson (Some (f # fs)) \<Rightarrow> Some f
      | ListJson (Some []) \<Rightarrow> None
      | ListJson None \<Rightarrow> None
      | ListUnparsable \<Rightarrow> None
      | ListNetError m \<Rightarrow> None)"

definition findKolpFileInDrive :: "'r env \<Rightarrow> string \<Rightarrow> (string option, 'r) io" where
  "findKolpFileInDrive N accessToken =
     bindIO (liftE (ClientRequest find_path (''Bearer '' @ accessToken))) (\<lambda>_.
     bindIO (request (files_list N accessToken find_path)) (\<lambda>response.
     bindIO (emit (FindKolpFile accessToken find_path (first_file_id response))) (\<lambda>_.
       returnIO (first_file_id response))))"

definition deleteFileFromDrive :: "'r env \<Rightarrow> string \<Rightarrow> string \<Rightarrow> (bool, 'r) io" where
  "deleteFileFromDrive N accessToken fileId =
     bindIO (liftE (ClientRequest (''/drive/v3/files/'' @ fileId) (''Bearer '' @ accessToken)))
       (\<lambda>_.
     bindIO (emit (FilesDelete accessToken fileId)) (\<lambda>_.
     bindIO (request (files_delete N accessToken fileId)) (\<lambda>res.
       returnIO (case res of
                   DeleteStatus code \<Rightarrow> code = 204 \<or> code = 200
                 | DeleteNetError m \<Rightarrow> False))))"

definition uploadToGoogleDrive ::
  "'r env \<Rightarrow> string \<Rightarrow> buffer \<Rightarrow> js_string \<Rightarrow> (string reply, 'r) io" where
  "uploadToGoogleDrive N accessToken kolpBuffer filename =
     bindIO (liftE (ClientRequest ''/upload/drive/v3/files?uploadType=multipart''
                      (''Bearer '' @ accessToken))) (\<lambda>_.
     bindIO (emit (FilesUpload accessToken filename kolpBuffer)) (\<lambda>_.
     bindIO (request (files_upload N accessToken filename ''application/octet-stream'' kolpBuffer))
       (\<lambda>response.
         returnIO
           (case response of
              UploadJson fid msg \<Rightarrow>
                if truthy fid then Success (the fid)
                else Failure (if truthy msg then the msg else ''Upload failed'')
            | UploadUnparsable \<Rightarrow> Failure ''Parse error''
            | UploadNetError m \<Rightarrow> Failure m))))"

definition downloadFromGoogleDrive :: "'r env \<Rightarrow> string \<Rightarrow> string \<Rightarrow> (buffer option, 'r) io" where
  "downloadFromGoogleDrive N accessToken fileId =
     bindIO (liftE (ClientRequest (''/drive/v3/files/'' @ fileId @ ''?alt=media'')
                      (''Bearer '' @ accessToken))) (\<lambda>_.
     bindIO (emit (FilesGet accessToken fileId)) (\<lambda>_.
     bindIO (request (files_get_media N accessToken fileId)) (\<lambda>res.
       returnIO (case res of DownloadBody b \<Rightarrow> Some b | DownloadNetError m \<Rightarrow> None))))"

subsection \<open>The handlers \<open>google-sync-upload\<close> and \<open>google-sync-download\<close>\<close>

text \<open>
  Both handlers open with the same lines (668 to 679, 700 to 711): load the tokens,
  give up when there are none, refresh when \<open>Date.now() >= tokens.expiry_date - 60000\<close>
  and load the tokens again. \<open>Inl msg\<close> is the early \<open>return\<close> of a failed result; the
  tokens loaded again can be \<open>null\<close>, which the non-null assertion \<open>!\<close> does not check.
\<close>

definition authenticate :: "'r env \<Rightarrow> (string + GoogleTokens option, 'r) io" where
  "authenticate N =
     bindIO loadTokens (\<lambda>tokens.
       case tokens of
         None \<Rightarrow> returnIO (Inl ''Not authenticated'')
       | Some t \<Rightarrow>
           bindIO (Date_now N) (\<lambda>now.
             if now \<ge> expiry_date t - 60000 then
               bindIO (refreshAccessToken N) (\<lambda>newToken.
                 if \<not> truthy newToken then returnIO (Inl ''Token refresh failed'')
                 else bindIO loadTokens (\<lambda>tokens'. returnIO (Inr tokens')))
             else returnIO (Inr (Some t))))"

text \<open>Reading \<open>tokens.access_token\<close> throws a TypeError when \<open>tokens\<close> is \<open>null\<close>.\<close>

definition access_token_of :: "GoogleTokens option \<Rightarrow> js_error + string" where
  "access_token_of tokens =
     (case tokens of
        None \<Rightarrow> Inl (TypeError ''Cannot read properties of null'')
      | Some t \<Rightarrow> Inr (access_token t))"

text \<open>
  The name of the uploaded object: \<open>kolp_backup_\<close>, the current instant in ISO format
  with every colon and full stop replaced by a hyphen, and \<open>.klp\<close>.
\<close>

definition backup_filename :: "'v platform \<Rightarrow> int \<Rightarrow> js_string" where
  "backup_filename P now =
     js_of ''kolp_backup_''
       @ map (\<lambda>c. if c = 0x3A \<or> c = 0x2E then 0x2D else c) (toISOString P now)
       @ js_of ''.klp''"

text \<open>
  Lines 685 to 692 of the upload handler, with what \<open>findKolpFileInDrive\<close> resolved to:
  the delete of that object when there is one, whose result is not looked at, then the
  upload.
\<close>

definition upload_after_find ::
  "'r env \<Rightarrow> 'v platform \<Rightarrow> string \<Rightarrow> buffer \<Rightarrow> string option \<Rightarrow> (string reply, 'r) io" where
  "upload_after_find N P at kolpBuffer existingFileId =
     bindIO (case existingFileId of
               None \<Rightarrow> returnIO False
             | Some fileId \<Rightarrow>
                 if fileId = [] then returnIO False
                 else deleteFileFromDrive N at fileId) (\<lambda>_.
     bindIO (Date_now N) (\<lambda>now'.
       uploadToGoogleDrive N at kolpBuffer (backup_filename P now')))"

text \<open>Lines 681 to 692, run with the tokens that authentication left.\<close>

definition upload_body ::
  "'r env \<Rightarrow> 'v platform \<Rightarrow> 'v \<Rightarrow> GoogleTokens option \<Rightarrow> (string reply, 'r) io" where
  "upload_body N P d tokens =
     bindIO (Date_now N) (\<lambda>now.
     bindIO (liftE (createKolpFile P now d)) (\<lambda>kolpBuffer.
     bindIO (write_kolp_file N kolpBuffer) (\<lambda>_.
     bindIO (liftE (access_token_of tokens)) (\<lambda>at.
     bindIO (findKolpFileInDrive N at) (\<lambda>existingFileId.
       upload_after_find N P at kolpBuffer existingFileId)))))"

definition google_sync_upload_try ::
  "'r env \<Rightarrow> 'v platform \<Rightarrow> 'v \<Rightarrow> (string reply, 'r) io" where
  "google_sync_upload_try N P d =
     bindIO (authenticate N) (\<lambda>auth.
       case auth of
         Inl msg \<Rightarrow> returnIO (Failure msg)
       | Inr tokens \<Rightarrow> upload_body N P d tokens)"

text \<open>The \<open>catch\<close> clause turns any exception into a failed result with its message.\<close>

definition google_sync_upload ::
  "'r env \<Rightarrow> 'v platform \<Rightarrow> 'v \<Rightarrow> 'r world \<Rightarrow> string reply \<times> 'r world" where
  "google_sync_upload N P d w =
     (case google_sync_upload_try N P d w of
        (Inl e, w') \<Rightarrow> (Failure (message_of e), w')
      | (Inr r, w') \<Rightarrow> (r, w'))"

text \<open>
  Lines 714 to 730 of the download handler, with what \<open>findKolpFileInDrive\<close> resolved
  to.
\<close>

definition download_after_find ::
  "'r env \<Rightarrow> 'v platform \<Rightarrow> string \<Rightarrow> string option \<Rightarrow> ('v KolpFile reply, 'r) io" where
  "download_after_find N P at fileId =
     (if \<not> truthy fileId then returnIO (Failure ''No backup found in Google Drive'')
      else
        bindIO (downloadFromGoogleDrive N at (the fileId)) (\<lambda>buf.
          case buf of
            None \<Rightarrow> returnIO (Failure ''Download failed'')
          | Some b \<Rightarrow>
              (case parseKolpFile P b of
                 None \<Rightarrow> returnIO (Failure ''Invalid KOLP file'')
               | Some parsed \<Rightarrow>
                   bindIO (write_kolp_file N b) (\<lambda>_.
                     returnIO (Success parsed)))))"

text \<open>Lines 713 to 730, run with the tokens that authentication left.\<close>

definition download_body ::
  "'r env \<Rightarrow> 'v platform \<Rightarrow> GoogleTokens option \<Rightarrow> ('v KolpFile reply, 'r) io" where
  "download_body N P tokens =
     bindIO (liftE (access_token_of tokens)) (\<lambda>at.
     bindIO (findKolpFileInDrive N at) (\<lambda>fileId.
       download_after_find N P at fileId))"

definition google_sync_download_try ::
  "'r env \<Rightarrow> 'v platform \<Rightarrow> ('v KolpFile reply, 'r) io" where
  "google_sync_download_try N P =
     bindIO (authenticate N) (\<lambda>auth.
       case auth of
         Inl msg \<Rightarrow> returnIO (Failure msg)
       | Inr tokens \<Rightarrow> download_body N P tokens)"

definition google_sync_download ::
  "'r env \<Rightarrow> 'v platform \<Rightarrow> 'r world \<Rightarrow> 'v KolpFile reply \<times> 'r world" where
  "google_sync_download N P w =
     (case google_sync_download_try N P w of
        (Inl e, w') \<Rightarrow> (Failure (message_of e), w')
      | (Inr r, w') \<Rightarrow> (r, w'))"

text \<open>The requests sent to the storage API among the calls of a trace.\<close>

fun is_storage_call :: "event \<Rightarrow> bool" where
  "is_storage_call (FindKolpFile t p r) = True"
| "is_storage_call (FilesDelete t f) = True"
| "is_storage_call (FilesUpload t n b) = True"
| "is_storage_call (FilesGet t f) = True"
| "is_storage_call e = False"

definition storage_calls :: "event list \<Rightarrow> event list" where
  "storage_calls es = filter is_storage_call es"

fun is_delete :: "event \<Rightarrow> bool" where
  "is_delete (FilesDelete t f) = True"
| "is_delete e = False"

text \<open>What a token refresh adds to the trace after its own entry.\<close>

fun is_refresh_traffic :: "event \<Rightarrow> bool" where
  "is_refresh_traffic (TokenPost c r) = True"
| "is_refresh_traffic (WriteTokens t) = True"
| "is_refresh_traffic e = False"

subsection \<open>A remote store that honours the requests\<close>

text \<open>
  The storage service is not part of the repository. This is a model of it after
  section 4.5 of the specification and the requests the code means to send: objects with
  an identifier, a name, a media type, a trashed flag, a modification time and a content;
  a listing of the backup objects (a name that contains \<open>kolp_backup\<close>, the media type
  \<open>application/octet-stream\<close>, not trashed), newest first, one page of one; a delete that
  removes the object; an upload that stores a new object under an identifier never used
  before; a download of the content. Any access token is accepted and every request
  that arrives is answered.
\<close>

record drive_file =
  file_id :: string
  file_name :: js_string
  mime_type :: string
  file_trashed :: bool
  modified_time :: int
  file_content :: buffer

record drive_state =
  drive_files :: "drive_file list"
  retired_ids :: "string list"
  drive_clock :: int

fun contains :: "js_string \<Rightarrow> js_string \<Rightarrow> bool" where
  "contains pat [] = (pat = [])"
| "contains pat (c # cs) = (take (length pat) (c # cs) = pat \<or> contains pat cs)"

definition is_backup :: "drive_file \<Rightarrow> bool" where
  "is_backup f =
     (contains (js_of ''kolp_backup'') (file_name f) \<and> mime_type f = ''application/octet-stream''
      \<and> \<not> file_trashed f)"

definition backups :: "drive_state \<Rightarrow> drive_file list" where
  "backups st = filter is_backup (drive_files st)"

definition drive_list :: "string \<Rightarrow> string \<Rightarrow> drive_state \<Rightarrow> list_reply \<times> drive_state" where
  "drive_list tok path st =
     (ListJson (Some (map file_id (take 1 (sort_key (\<lambda>f. - modified_time f) (backups st))))),
      st)"

definition drive_delete :: "string \<Rightarrow> string \<Rightarrow> drive_state \<Rightarrow> delete_reply \<times> drive_state" where
  "drive_delete tok fid st =
     (if fid \<in> set (map file_id (drive_files st)) then
        (DeleteStatus 204,
         st\<lparr>drive_files := filter (\<lambda>f. file_id f \<noteq> fid) (drive_files st),
            retired_ids := fid # retired_ids st\<rparr>)
      else (DeleteStatus 404, st))"

text \<open>
  A new identifier: longer than every identifier in the list, which holds those in use
  and those of the objects deleted (\<open>retired_ids\<close>), so that none is issued twice.
\<close>

definition fresh_id :: "string list \<Rightarrow> string" where
  "fresh_id ids = replicate (Suc (foldr max (map length ids) 0)) (CHR ''n'')"

definition drive_upload ::
  "string \<Rightarrow> js_string \<Rightarrow> string \<Rightarrow> buffer \<Rightarrow> drive_state \<Rightarrow> upload_reply \<times> drive_state" where
  "drive_upload tok name mime content st =
     (let fid = fresh_id (map file_id (drive_files st) @ retired_ids st) in
      (UploadJson (Some fid) None,
       st\<lparr>drive_files := drive_files st @
            [\<lparr>file_id = fid, file_name = name, mime_type = mime, file_trashed = False,
              modified_time = drive_clock st, file_content = content\<rparr>]\<rparr>))"

definition drive_get :: "string \<Rightarrow> string \<Rightarrow> drive_state \<Rightarrow> download_reply \<times> drive_state" where
  "drive_get tok fid st =
     (case find (\<lambda>f. file_id f = fid) (drive_files st) of
        Some f \<Rightarrow> (DownloadBody (file_content f), st)
      | None \<Rightarrow> (DownloadBody (utf8_encode (js_of ''Not Found'')), st))"

definition drive_token ::
  "GoogleCredentials \<Rightarrow> string \<Rightarrow> drive_state \<Rightarrow> token_reply \<times> drive_state" where
  "drive_token c rt st = (TokenJson (Some ''ya29.refreshed'') 3599, st)"

definition drive_env :: "drive_state env" where
  "drive_env =
     \<lparr>now_of = drive_clock, token_endpoint = drive_token, files_list = drive_list,
      files_delete = drive_delete, files_upload = drive_upload, files_get_media = drive_get,
      backup_write_fault = (\<lambda>st. None), tokens_write_fault = (\<lambda>st. None)\<rparr>"

section \<open>The OAuth authorization flow (\<open>startGoogleAuth\<close>, lines 178 to 256)\<close>

text \<open>
  One call of \<open>startGoogleAuth\<close> creates a promise, a listener and a timer, and then
  reacts to what arrives: a request at the listener, the end of a code exchange, the end
  of a profile request, the timer. Each reaction runs to its next \<open>await\<close> or to its end
  without interruption; between two of them anything else may arrive. A flow is the
  state that these reactions share, and \<open>auth_step\<close> is one reaction.
\<close>

text \<open>A query parameter as \<open>url.parse(u, true).query\<close> gives it: absent, a string, or
  several strings when the parameter is repeated.\<close>

datatype qparam = QAbsent | QString string | QArray "string list"

datatype auth_result = AuthSuccess "string option" | AuthFailure string

text \<open>
  What \<open>exchangeCodeForTokens\<close> and \<open>getUserInfo\<close> settle to: the parsed body with the
  fields the flow reads, the body \<open>null\<close>, or a rejection with the error of the network
  or of \<open>JSON.parse\<close>.
\<close>

datatype exchange_outcome =
    ExchangeJson "string option" string int
  | ExchangeNull
  | ExchangeRejected string

datatype userinfo_outcome =
    UserInfoJson "string option"
  | UserInfoNull
  | UserInfoRejected string

text \<open>Whether \<open>saveTokens\<close> or \<open>saveCredentials\<close> throws when the flow stores its result.\<close>

datatype save_fault = NoFault | TokensFault string | CredentialsFault string

datatype auth_input =
    Request string qparam qparam
  | ExchangeDone nat exchange_outcome
  | UserInfoDone nat userinfo_outcome int save_fault
  | Timeout

text \<open>
  \<open>Request path code state\<close> is a request with that path and those query parameters;
  \<open>ExchangeDone i o\<close> and \<open>UserInfoDone i o now fault\<close> end the call that the handler of
  request number \<open>i\<close> is waiting for, \<open>now\<close> being \<open>Date.now()\<close> at that moment.
\<close>

datatype auth_action =
    Respond nat
  | ServerClose
  | ResolveCall auth_result
  | ExchangeCode qparam
  | GetUserInfo string
  | SaveTokens GoogleTokens
  | SaveCredentials GoogleCredentials

text \<open>A request handler suspended at an \<open>await\<close>, with the token response it holds.\<close>

datatype suspended =
    AwaitExchange
  | AwaitUserInfo string string int

record flow =
  fl_clientId :: string
  fl_clientSecret :: string
  fl_state :: string
  fl_handlers :: "suspended option list"
  fl_resolved :: "auth_result option"
  fl_timer_fired :: bool
  fl_token_file :: "GoogleTokens option"
  fl_credentials_file :: "GoogleCredentials option"
  fl_log :: "auth_action list"

text \<open>
  The flow that \<open>startGoogleAuth\<close> sets up: \<open>st\<close> is the value of
  \<open>crypto.randomBytes(16).toString('hex')\<close>; the promise is pending, no handler runs, the
  timer is armed.
\<close>

definition startGoogleAuth ::
  "string \<Rightarrow> string \<Rightarrow> string \<Rightarrow> GoogleTokens option \<Rightarrow> GoogleCredentials option \<Rightarrow> flow" where
  "startGoogleAuth cid secret st tokens creds =
     \<lparr>fl_clientId = cid, fl_clientSecret = secret, fl_state = st, fl_handlers = [],
      fl_resolved = None, fl_timer_fired = False, fl_token_file = tokens,
      fl_credentials_file = creds, fl_log = []\<rparr>"

definition act :: "auth_action list \<Rightarrow> flow \<Rightarrow> flow" where
  "act as fl = fl\<lparr>fl_log := fl_log fl @ as\<rparr>"

text \<open>\<open>resolve(r)\<close> settles the promise the first time it is called and does nothing after.\<close>

definition resolve :: "auth_result \<Rightarrow> flow \<Rightarrow> flow" where
  "resolve r fl =
     (act [ResolveCall r] fl)
       \<lparr>fl_resolved := (case fl_resolved fl of None \<Rightarrow> Some r | Some r' \<Rightarrow> Some r')\<rparr>"

text \<open>The \<open>catch\<close> clause of the request handler.\<close>

definition auth_catch :: "string \<Rightarrow> flow \<Rightarrow> flow" where
  "auth_catch msg fl = resolve (AuthFailure msg) (act [Respond 500, ServerClose] fl)"

definition finish_handler :: "nat \<Rightarrow> flow \<Rightarrow> flow" where
  "finish_handler i fl = fl\<lparr>fl_handlers := (fl_handlers fl)[i := None]\<rparr>"

definition waiting :: "flow \<Rightarrow> nat \<Rightarrow> suspended option" where
  "waiting fl i = (if i < length (fl_handlers fl) then fl_handlers fl ! i else None)"

fun auth_step :: "flow \<Rightarrow> auth_input \<Rightarrow> flow" where
  "auth_step fl (Request pathname code returnedState) =
     (if pathname = ''/callback'' then
        (if returnedState \<noteq> QString (fl_state fl) then
           resolve (AuthFailure ''Invalid state'') (act [Respond 400, ServerClose] fl)
         else
           (act [ExchangeCode code] fl)\<lparr>fl_handlers := fl_handlers fl @ [Some AwaitExchange]\<rparr>)
      else fl)"
| "auth_step fl (ExchangeDone i outcome) =
     (case waiting fl i of
        Some AwaitExchange \<Rightarrow>
          (case outcome of
             ExchangeJson at rt expires_in \<Rightarrow>
               if truthy at then
                 (act [GetUserInfo (the at)] fl)
                   \<lparr>fl_handlers := (fl_handlers fl)[i := Some (AwaitUserInfo (the at) rt expires_in)]\<rparr>
               else finish_handler i fl
           | ExchangeNull \<Rightarrow>
               finish_handler i (auth_catch ''Cannot read properties of null'' fl)
           | ExchangeRejected msg \<Rightarrow> finish_handler i (auth_catch msg fl))
      | Some (AwaitUserInfo at rt expires_in) \<Rightarrow> fl
      | None \<Rightarrow> fl)"
| "auth_step fl (UserInfoDone i outcome now fault) =
     (case waiting fl i of
        Some (AwaitUserInfo at rt expires_in) \<Rightarrow>
          (case outcome of
             UserInfoJson mail \<Rightarrow>
               (let tokens = \<lparr>access_token = at, refresh_token = rt,
                               expiry_date = now + expires_in * 1000, email = mail\<rparr>;
                    creds = \<lparr>clientId = fl_clientId fl, clientSecret = fl_clientSecret fl\<rparr>
                in case fault of
                     TokensFault msg \<Rightarrow>
                       finish_handler i (auth_catch msg (act [SaveTokens tokens] fl))
                   | CredentialsFault msg \<Rightarrow>
                       finish_handler i
                         (auth_catch msg
                            ((act [SaveTokens tokens, SaveCredentials creds] fl)
                               \<lparr>fl_token_file := Some tokens\<rparr>))
                   | NoFault \<Rightarrow>
                       finish_handler i
                         (resolve (AuthSuccess mail)
                            ((act [SaveTokens tokens, SaveCredentials creds, Respond 200,
                                   ServerClose] fl)
                               \<lparr>fl_token_file := Some tokens,
                                  fl_credentials_file := Some creds\<rparr>)))
           | UserInfoNull \<Rightarrow>
               finish_handler i (auth_catch ''Cannot read properties of null'' fl)
           | UserInfoRejected msg \<Rightarrow> finish_handler i (auth_catch msg fl))
      | Some AwaitExchange \<Rightarrow> fl
      | None \<Rightarrow> fl)"
| "auth_step fl Timeout =
     (if fl_timer_fired fl then fl
      else resolve (AuthFailure ''Authentication timeout'')
             (act [ServerClose] (fl\<lparr>fl_timer_fired := True\<rparr>)))"

definition auth_run :: "flow \<Rightarrow> auth_input list \<Rightarrow> flow" where
  "auth_run fl inputs = foldl auth_step fl inputs"

text \<open>
  The calls of \<open>server.close()\<close> and of \<open>resolve\<close> among the actions of a flow, in order.
\<close>

fun is_exit_action :: "auth_action \<Rightarrow> bool" where
  "is_exit_action ServerClose = True"
| "is_exit_action (ResolveCall r) = True"
| "is_exit_action a = False"

definition exits :: "auth_action list \<Rightarrow> auth_action list" where
  "exits as = filter is_exit_action as"



subsection \<open>A concrete runtime for the worked examples\<close>

text \<open>
  The empty snapshot that the \<open>kolp-save-local\<close> handler builds, with its JSON text. The
  runtime below knows this one value only: it serialises it to that text and parses
  nothing else.
\<close>

datatype sample_value = EmptySnapshot

definition empty_snapshot_json :: js_string where
  \<open>empty_snapshot_json =
     js_of ''{"notes":[],"folders":[],"tags":[],"settings":{},"attachments":{}}''\<close>

definition sample_platform :: "sample_value platform" where
  "sample_platform =
     \<lparr>JSON_stringify = (\<lambda>v. Inr (Some empty_snapshot_json)),
      JSON_parse = (\<lambda>s. if s = empty_snapshot_json then Inr EmptySnapshot
                          else Inl (SyntaxError ''Unexpected token'')),
      toISOString = (\<lambda>t. js_of ''2026-11-02T06:44:00.000Z'')\<rparr>"

text \<open>
  A connected user with a token that is valid for another hour, and a store that holds
  one backup object, uploaded the day before.
\<close>

definition sample_tokens :: GoogleTokens where
  "sample_tokens =
     \<lparr>access_token = ''ya29.sample'', refresh_token = ''1//sample'',
      expiry_date = 1762069440000, email = Some ''user@example.com''\<rparr>"

definition old_backup :: drive_file where
  "old_backup =
     \<lparr>file_id = ''old-backup'', file_name = js_of ''kolp_backup_2026-11-01T06-44-00-000Z.klp'',
      mime_type = ''application/octet-stream'', file_trashed = False,
      modified_time = 1761979440000, file_content = []\<rparr>"

definition sample_world :: "drive_state world" where
  "sample_world =
     \<lparr>token_file = Some sample_tokens, credentials_file = None, backup_file = None,
      remote = \<lparr>drive_files = [old_backup], retired_ids = [], drive_clock = 1762065840000\<rparr>,
      trace = []\<rparr>"

section \<open>Properties of the codec\<close>

subsection \<open>ASCII strings and the checksum field\<close>

lemma ascii_not_surrogate:
  assumes "(u :: 16 word) < 0x80"
  shows "unat u < 0x80" and "\<not> is_high_surrogate u" and "\<not> is_low_surrogate u"
  using assms
  by (auto simp: is_high_surrogate_def is_low_surrogate_def word_less_nat_alt word_le_nat_alt)

lemma utf8_encode_ascii:
  "\<forall>u\<in>set s. u < 0x80 \<Longrightarrow> utf8_encode s = map ucast s"
proof (induction s rule: utf8_encode.induct)
  case 1
  then show ?case by simp
next
  case (2 u)
  then have "u < 0x80" by simp
  from ascii_not_surrogate [OF this] show ?case
    by (simp add: utf8_of_code_point_def)
next
  case (3 u v rest)
  then have "u < 0x80" by simp
  from ascii_not_surrogate [OF this] 3 show ?case
    by (simp add: utf8_of_code_point_def)
qed

lemma utf8_decode_ascii:
  "\<forall>b\<in>set bs. b < 0x80 \<Longrightarrow> utf8_decode bs = map ucast bs"
  by (induction bs) auto

lemma ucast_ascii_lt: "(u :: 16 word) < 0x80 \<Longrightarrow> (ucast u :: 8 word) < 0x80"
  by (simp add: word_less_nat_alt unsigned_ucast_eq take_bit_eq_mod)

lemma ucast_ascii_back: "(u :: 16 word) < 0x80 \<Longrightarrow> ucast (ucast u :: 8 word) = u"
  by (simp add: word_less_nat_alt word_eq_iff_unsigned [where ?'a = nat]
      unsigned_ucast_eq take_bit_eq_mod unat_mod)

lemma utf8_round_trip_ascii:
  assumes "\<forall>u\<in>set s. u < 0x80"
  shows "utf8_decode (utf8_encode s) = s"
proof -
  have "utf8_decode (map ucast s) = map ucast (map (ucast :: 16 word \<Rightarrow> byte) s)"
    using assms by (intro utf8_decode_ascii) (auto simp: ucast_ascii_lt)
  also have "\<dots> = s"
    using assms by (induction s) (auto simp: ucast_ascii_back)
  finally show ?thesis
    using assms by (simp add: utf8_encode_ascii)
qed

subsection \<open>UTF-8 decodes what it encoded\<close>

lemma byte_of_nat_cmp:
  assumes "n < 256"
  shows "unat (word_of_nat n :: byte) = n"
  using assms by (simp add: unat_of_nat)

lemma decode1_bytes:
  assumes "n0 < 0x80"
  shows "utf8_decode (word_of_nat n0 # bs) = word_of_nat n0 # utf8_decode bs"
proof -
  have u: "unat (word_of_nat n0 :: byte) = n0" using assms by (simp add: unat_of_nat)
  have "(word_of_nat n0 :: byte) < 0x80" using assms by (simp add: word_less_nat_alt u)
  moreover have "(ucast (word_of_nat n0 :: byte) :: 16 word) = word_of_nat n0"
    using assms by (simp add: word_eq_iff_unsigned [where ?'a = nat] unsigned_ucast_eq u unat_of_nat take_bit_eq_mod)
  ultimately show ?thesis by simp
qed

lemma decode2_bytes:
  assumes "0xC2 \<le> n0" "n0 \<le> 0xDF" "0x80 \<le> n1" "n1 \<le> 0xBF"
  shows "utf8_decode (word_of_nat n0 # word_of_nat n1 # bs)
    = code_units_of ((n0 - 0xC0) * 64 + (n1 - 0x80)) @ utf8_decode bs"
proof -
  have u: "unat (word_of_nat n0 :: byte) = n0" "unat (word_of_nat n1 :: byte) = n1"
    using assms by (simp_all add: unat_of_nat)
  have "\<not> (word_of_nat n0 :: byte) < 0x80" "0xC2 \<le> (word_of_nat n0 :: byte)"
    "(word_of_nat n0 :: byte) \<le> 0xDF" "is_cont 0x80 0xBF (word_of_nat n1)"
    using assms by (simp_all add: word_less_nat_alt word_le_nat_alt u is_cont_def)
  then show ?thesis by (simp add: u)
qed

lemma decode3_bytes:
  assumes "0xE0 \<le> n0" "n0 \<le> 0xEF" "0x80 \<le> n1" "n1 \<le> 0xBF" "0x80 \<le> n2" "n2 \<le> 0xBF"
    and "n0 = 0xE0 \<longrightarrow> 0xA0 \<le> n1" and "n0 = 0xED \<longrightarrow> n1 \<le> 0x9F"
  shows "utf8_decode (word_of_nat n0 # word_of_nat n1 # word_of_nat n2 # bs)
    = code_units_of ((n0 - 0xE0) * 4096 + (n1 - 0x80) * 64 + (n2 - 0x80)) @ utf8_decode bs"
proof -
  have u: "unat (word_of_nat n0 :: byte) = n0" "unat (word_of_nat n1 :: byte) = n1"
    "unat (word_of_nat n2 :: byte) = n2"
    using assms by (simp_all add: unat_of_nat)
  have e: "(word_of_nat n0 :: byte) = 0xE0 \<longleftrightarrow> n0 = 0xE0"
    "(word_of_nat n0 :: byte) = 0xED \<longleftrightarrow> n0 = 0xED"
    by (simp_all add: word_eq_iff_unsigned [where ?'a = nat] u)
  have c: "\<not> (word_of_nat n0 :: byte) < 0x80"
    "\<not> (0xC2 \<le> (word_of_nat n0 :: byte) \<and> (word_of_nat n0 :: byte) \<le> 0xDF)"
    "0xE0 \<le> (word_of_nat n0 :: byte)" "(word_of_nat n0 :: byte) \<le> 0xEF"
    "is_cont (if (word_of_nat n0 :: byte) = 0xE0 then 0xA0 else 0x80)
       (if (word_of_nat n0 :: byte) = 0xED then 0x9F else 0xBF) (word_of_nat n1)"
    "is_cont 0x80 0xBF (word_of_nat n2)"
    using assms by (simp_all add: word_less_nat_alt word_le_nat_alt u e is_cont_def)
  show ?thesis
    apply (subst utf8_decode.simps(2))
    apply (simp only: c u if_True if_False list.case simp_thms)
    done
qed

lemma decode4_bytes:
  assumes "0xF0 \<le> n0" "n0 \<le> 0xF4" "0x80 \<le> n1" "n1 \<le> 0xBF" "0x80 \<le> n2" "n2 \<le> 0xBF"
    "0x80 \<le> n3" "n3 \<le> 0xBF"
    and "n0 = 0xF0 \<longrightarrow> 0x90 \<le> n1" and "n0 = 0xF4 \<longrightarrow> n1 \<le> 0x8F"
  shows "utf8_decode (word_of_nat n0 # word_of_nat n1 # word_of_nat n2 # word_of_nat n3 # bs)
    = code_units_of ((n0 - 0xF0) * 262144 + (n1 - 0x80) * 4096 + (n2 - 0x80) * 64 + (n3 - 0x80))
        @ utf8_decode bs"
proof -
  have u: "unat (word_of_nat n0 :: byte) = n0" "unat (word_of_nat n1 :: byte) = n1"
    "unat (word_of_nat n2 :: byte) = n2" "unat (word_of_nat n3 :: byte) = n3"
    using assms by (simp_all add: unat_of_nat)
  have e: "(word_of_nat n0 :: byte) = 0xF0 \<longleftrightarrow> n0 = 0xF0"
    "(word_of_nat n0 :: byte) = 0xF4 \<longleftrightarrow> n0 = 0xF4"
    by (simp_all add: word_eq_iff_unsigned [where ?'a = nat] u)
  have c: "\<not> (word_of_nat n0 :: byte) < 0x80"
    "\<not> (0xC2 \<le> (word_of_nat n0 :: byte) \<and> (word_of_nat n0 :: byte) \<le> 0xDF)"
    "\<not> (0xE0 \<le> (word_of_nat n0 :: byte) \<and> (word_of_nat n0 :: byte) \<le> 0xEF)"
    "0xF0 \<le> (word_of_nat n0 :: byte)" "(word_of_nat n0 :: byte) \<le> 0xF4"
    "is_cont (if (word_of_nat n0 :: byte) = 0xF0 then 0x90 else 0x80)
       (if (word_of_nat n0 :: byte) = 0xF4 then 0x8F else 0xBF) (word_of_nat n1)"
    "is_cont 0x80 0xBF (word_of_nat n2)" "is_cont 0x80 0xBF (word_of_nat n3)"
    using assms by (simp_all add: word_less_nat_alt word_le_nat_alt u e is_cont_def)
  show ?thesis
    apply (subst utf8_decode.simps(2))
    apply (simp only: c u if_True if_False list.case simp_thms)
    done
qed

lemma decode_code_point:
  assumes "cp < 0x110000" and "\<not> (0xD800 \<le> cp \<and> cp \<le> 0xDFFF)"
  shows "utf8_decode (utf8_of_code_point cp @ bs) = code_units_of cp @ utf8_decode bs"
proof -
  define r q r1 q1 r2 q2 where "r = cp mod 64" and "q = cp div 64" and "r1 = q mod 64"
    and "q1 = q div 64" and "r2 = q1 mod 64" and "q2 = q1 div 64"
  have cp: "cp = 64 * q + r" "r < 64" and q: "q = 64 * q1 + r1" "r1 < 64"
    and q1: "q1 = 64 * q2 + r2" "r2 < 64"
    by (simp_all add: r_def q_def r1_def q1_def r2_def q2_def)
  have d: "cp div 64 = q" "cp mod 64 = r" "cp div 4096 = q1" "cp div 262144 = q2"
    "(cp div 64) mod 64 = r1" "(cp div 4096) mod 64 = r2" "q mod 64 = r1" "q1 mod 64 = r2"
    using div_mult2_eq [of cp 64 64] div_mult2_eq [of cp 4096 64] div_mult2_eq [of cp 64 64]
    by (simp_all add: r_def q_def r1_def q1_def r2_def q2_def)
  consider "cp < 0x80" | "0x80 \<le> cp" "cp < 0x800" | "0x800 \<le> cp" "cp < 0x10000"
    | "0x10000 \<le> cp"
    by linarith
  then show ?thesis
  proof cases
    case 1
    then show ?thesis
      using decode1_bytes [of cp bs] by (simp add: utf8_of_code_point_def code_units_of_def)
  next
    case 2
    have "(0xC0 + q - 0xC0) * 64 + (0x80 + r - 0x80) = cp" "0xC2 \<le> 0xC0 + q" "0xC0 + q \<le> 0xDF"
      "0x80 \<le> 0x80 + r" "0x80 + r \<le> 0xBF"
      using 2 cp by simp_all
    with decode2_bytes [of "0xC0 + q" "0x80 + r" bs] show ?thesis
      using 2 by (simp add: utf8_of_code_point_def d)
  next
    case 3
    have enc: "utf8_of_code_point cp
        = [word_of_nat (0xE0 + q1), word_of_nat (0x80 + r1), word_of_nat (0x80 + r)]"
      using 3 by (simp add: utf8_of_code_point_def d)
    have val: "(0xE0 + q1 - 0xE0) * 4096 + (0x80 + r1 - 0x80) * 64 + (0x80 + r - 0x80) = cp"
      using cp q by simp
    have b: "0xE0 \<le> 0xE0 + q1" "0xE0 + q1 \<le> 0xEF" "0x80 \<le> 0x80 + r1" "0x80 + r1 \<le> 0xBF"
      "0x80 \<le> 0x80 + r" "0x80 + r \<le> 0xBF"
      "0xE0 + q1 = 0xE0 \<longrightarrow> 0xA0 \<le> 0x80 + r1" "0xE0 + q1 = 0xED \<longrightarrow> 0x80 + r1 \<le> 0x9F"
      using 3 assms(2) cp q by auto
    show ?thesis
      unfolding enc using decode3_bytes [OF b, of bs] by (simp only: val append_Cons append_Nil)
  next
    case 4
    have enc: "utf8_of_code_point cp
        = [word_of_nat (0xF0 + q2), word_of_nat (0x80 + r2), word_of_nat (0x80 + r1),
           word_of_nat (0x80 + r)]"
      using 4 by (simp add: utf8_of_code_point_def d)
    have val: "(0xF0 + q2 - 0xF0) * 262144 + (0x80 + r2 - 0x80) * 4096 + (0x80 + r1 - 0x80) * 64
        + (0x80 + r - 0x80) = cp"
      using cp q q1 by simp
    have b: "0xF0 \<le> 0xF0 + q2" "0xF0 + q2 \<le> 0xF4" "0x80 \<le> 0x80 + r2" "0x80 + r2 \<le> 0xBF"
      "0x80 \<le> 0x80 + r1" "0x80 + r1 \<le> 0xBF" "0x80 \<le> 0x80 + r" "0x80 + r \<le> 0xBF"
      "0xF0 + q2 = 0xF0 \<longrightarrow> 0x90 \<le> 0x80 + r2" "0xF0 + q2 = 0xF4 \<longrightarrow> 0x80 + r2 \<le> 0x8F"
      using 4 assms(1) cp q q1 by auto
    show ?thesis
      unfolding enc using decode4_bytes [OF b, of bs] by (simp only: val append_Cons append_Nil)
  qed
qed

lemma not_surrogate_nat:
  assumes "\<not> is_high_surrogate u" and "\<not> is_low_surrogate u"
  shows "\<not> (0xD800 \<le> unat u \<and> unat u \<le> 0xDFFF)" and "unat u < 0x110000"
proof -
  have "unat u < 2 ^ LENGTH(16)" by (rule unsigned_less)
  then show "unat u < 0x110000" by simp
  show "\<not> (0xD800 \<le> unat u \<and> unat u \<le> 0xDFFF)"
    using assms by (auto simp: is_high_surrogate_def is_low_surrogate_def word_le_nat_alt)
qed

lemma code_units_of_unit: "code_units_of (unat (u :: 16 word)) = [u]"
proof -
  have "unat u < 2 ^ LENGTH(16)" by (rule unsigned_less)
  then show ?thesis by (simp add: code_units_of_def)
qed

lemma surrogate_pair:
  assumes "is_high_surrogate u" and "is_low_surrogate v"
  defines "cp \<equiv> 0x10000 + (unat u - 0xD800) * 1024 + (unat v - 0xDC00)"
  shows "cp < 0x110000" and "\<not> (0xD800 \<le> cp \<and> cp \<le> 0xDFFF)" and "code_units_of cp = [u, v]"
proof -
  have u: "0xD800 \<le> unat u" "unat u \<le> 0xDBFF" and v: "0xDC00 \<le> unat v" "unat v \<le> 0xDFFF"
    using assms(1,2) by (simp_all add: is_high_surrogate_def is_low_surrogate_def word_le_nat_alt)
  show "cp < 0x110000" and "\<not> (0xD800 \<le> cp \<and> cp \<le> 0xDFFF)"
    using u v by (simp_all add: cp_def)
  have "cp - 0x10000 = (unat u - 0xD800) * 1024 + (unat v - 0xDC00)"
    by (simp add: cp_def)
  moreover have "unat v - 0xDC00 < 1024" using v by simp
  ultimately have "(cp - 0x10000) div 1024 = unat u - 0xD800"
    "(cp - 0x10000) mod 1024 = unat v - 0xDC00"
    by simp_all
  moreover have "\<not> cp < 0x10000" by (simp add: cp_def)
  ultimately show "code_units_of cp = [u, v]"
    using u v by (simp add: code_units_of_def)
qed

lemma utf8_round_trip:
  "well_formed_utf16 s \<Longrightarrow> utf8_decode (utf8_encode s) = s"
proof (induction s rule: utf8_encode.induct)
  case 1
  then show ?case by simp
next
  case (2 u)
  then have ns: "\<not> is_high_surrogate u" "\<not> is_low_surrogate u" by simp_all
  from decode_code_point [OF not_surrogate_nat(2) [OF ns] not_surrogate_nat(1) [OF ns], of "[]"]
  show ?case using ns by (simp add: code_units_of_unit)
next
  case (3 u v rest)
  show ?case
  proof (cases "is_high_surrogate u")
    case True
    with 3 have low: "is_low_surrogate v" and wf: "well_formed_utf16 rest" by simp_all
    note pair = surrogate_pair [OF True low]
    from decode_code_point [OF pair(1) pair(2), of "utf8_encode rest"] 3(1) [OF True low wf]
    show ?thesis using True low by (simp add: pair(3))
  next
    case False
    with 3 have ns: "\<not> is_high_surrogate u" "\<not> is_low_surrogate u"
      and wf: "well_formed_utf16 (v # rest)" by simp_all
    from decode_code_point [OF not_surrogate_nat(2) [OF ns] not_surrogate_nat(1) [OF ns],
        of "utf8_encode (v # rest)"] 3(4) [OF ns wf]
    show ?thesis using ns by (simp add: code_units_of_unit)
  qed
qed

lemma length_utf8_of_code_point: "length (utf8_of_code_point cp) \<le> 4"
  by (simp add: utf8_of_code_point_def)

lemma length_utf8_of_unit: "length (utf8_of_code_point (unat (u :: 16 word))) \<le> 3"
proof -
  have "unat u < 2 ^ LENGTH(16)" by (rule unsigned_less)
  then show ?thesis by (simp add: utf8_of_code_point_def)
qed

lemma length_utf8_encode: "length (utf8_encode s) \<le> 3 * length s"
proof (induction s rule: utf8_encode.induct)
  case 1
  then show ?case by simp
next
  case (2 u)
  from length_utf8_of_unit [of u] show ?case
    by (simp add: utf8_of_code_point_def)
next
  case (3 u v rest)
  from 3 length_utf8_of_unit [of u]
    length_utf8_of_code_point [of "0x10000 + (unat u - 0xD800) * 1024 + (unat v - 0xDC00)"]
  show ?case
    by (auto simp: utf8_of_code_point_def)
qed

subsection \<open>The characters of the examples and the digits of the checksum\<close>

lemma js_of_ascii:
  "\<forall>c\<in>set s. (of_char c :: nat) < 128 \<Longrightarrow> \<forall>u\<in>set (js_of s). u < 0x80"
  by (auto simp: js_of_def word_less_nat_alt unat_of_nat)

lemma nibble_bound: "unat ((x :: 32 word) AND 0xF) < 16"
proof -
  have "unat (x AND 0xF) \<le> unat (0xF :: 32 word)"
    by (rule word_and_le1 [THEN word_le_nat_alt [THEN iffD1]])
  then show ?thesis by simp
qed

lemma hex_digit_ascii: "n < 16 \<Longrightarrow> hex_digit n < 0x80"
  by (simp add: hex_digit_def word_less_nat_alt unat_of_nat)

lemma hex32_ascii: "\<forall>u\<in>set (hex32 w). u < 0x80"
  by (auto simp: hex32_def intro!: hex_digit_ascii nibble_bound)

lemma length_hex32: "length (hex32 w) = 8"
  by (simp add: hex32_def)

lemma length_sha256_hex: "length (sha256_hex m) = 64"
  by (simp add: sha256_hex_def length_hex32 split: prod.splits)

lemma sha256_hex_ascii: "\<forall>u\<in>set (sha256_hex m). u < 0x80"
  using hex32_ascii by (auto simp: sha256_hex_def split: prod.splits)

lemma checksum_ascii: "\<forall>u\<in>set (take 32 (sha256_hex m)). u < 0x80"
  using sha256_hex_ascii [of m] by (auto dest: in_set_takeD)

lemma checksum_field: "utf8_encode (take 32 (sha256_hex m)) = map ucast (take 32 (sha256_hex m))"
  by (rule utf8_encode_ascii [OF checksum_ascii])

lemma length_checksum_field: "length (utf8_encode (take 32 (sha256_hex m))) = 32"
  by (simp add: checksum_field length_sha256_hex)

subsection \<open>Little-endian integers\<close>

lemma length_le_bytes: "length (le_bytes n w) = n"
  by (simp add: le_bytes_def)

lemma le_word_Cons: "le_word (b # bs) = push_bit 8 (le_word bs) OR ucast b"
  by (simp add: le_word_def)

lemma le_word_bytes_from:
  "(le_word (map (\<lambda>i. ucast (drop_bit (8 * i) w)) [k..<k + n]) :: 'a::len word)
     = take_bit (8 * n) (drop_bit (8 * k) w)"
proof (induction n arbitrary: k)
  case 0
  then show ?case by (simp add: le_word_def)
next
  case (Suc n)
  have "[k..<k + Suc n] = k # [Suc k..<Suc k + n]"
    by (simp add: upt_conv_Cons)
  then have "le_word (map (\<lambda>i. ucast (drop_bit (8 * i) w)) [k..<k + Suc n]) =
      push_bit 8 (take_bit (8 * n) (drop_bit (8 * Suc k) w))
        OR ucast (ucast (drop_bit (8 * k) w) :: byte)"
    using Suc [of "Suc k"] by (simp add: le_word_Cons)
  also have "\<dots> = take_bit (8 * Suc n) (drop_bit (8 * k) w)"
    by (rule bit_word_eqI) (auto simp: bit_simps)
  finally show ?case .
qed

lemma le_word_le_bytes_64: "le_word (le_bytes 8 (w :: 64 word)) = w"
  using le_word_bytes_from [of w 0 8] by (simp add: le_bytes_def take_bit_word_eq_self)

lemma le_word_le_bytes_32: "le_word (le_bytes 4 (w :: 32 word)) = w"
  using le_word_bytes_from [of w 0 4] by (simp add: le_bytes_def take_bit_word_eq_self)

lemma sint_int64:
  "- 9223372036854775808 \<le> v \<Longrightarrow> v \<le> 9223372036854775807 \<Longrightarrow>
     sint (word_of_int v :: 64 word) = v"
  by (simp add: sint_sbintrunc' signed_take_bit_int_eq_self)

lemma unat_uint32: "n < 4294967296 \<Longrightarrow> unat (word_of_int (int n) :: 32 word) = n"
  by (simp add: unat_of_nat)

lemma le_bytes_32_nat:
  "N < 4294967296 \<Longrightarrow> map unat (le_bytes 4 (word_of_int (int N) :: 32 word)) =
     [N mod 256, N div 256 mod 256, N div 65536 mod 256, N div 16777216 mod 256]"
  by (simp add: le_bytes_def upt_conv_Cons unsigned_ucast_eq unat_drop_bit_eq unat_of_nat
      drop_bit_eq_div take_bit_eq_mod unat_div unat_mod)

subsection \<open>The bytes \<open>createKolpFile\<close> writes and what \<open>parseKolpFile\<close> reads back\<close>

lemma KOLP_MAGIC_bytes: "KOLP_MAGIC = [0x4B, 0x4F, 0x4C, 0x50]"
  by (simp add: KOLP_MAGIC_def js_of_def utf8_of_code_point_def is_high_surrogate_def
      is_low_surrogate_def)

lemma createKolpFile_bytes:
  assumes "JSON_stringify P d = Inr (Some js)"
    and "length (utf8_encode js) < 4294967296"
    and "- 9223372036854775808 \<le> now" and "now \<le> 9223372036854775807"
  shows "createKolpFile P now d =
    Inr (KOLP_MAGIC @ [1] @ le_bytes 8 (word_of_int now :: 64 word)
         @ utf8_encode (take 32 (sha256_hex (utf8_encode js)))
         @ le_bytes 4 (word_of_int (int (length (utf8_encode js))) :: 32 word)
         @ utf8_encode js)"
  using assms
  by (simp add: createKolpFile_def bindE_def Buffer_from_def Buffer_alloc_def Buffer_copy_def
      writeUInt8_def writeBigInt64LE_def writeUInt32LE_def write_at_def Buffer_concat_def
      KOLP_VERSION_def KOLP_MAGIC_bytes length_le_bytes length_checksum_field Let_def)

lemma Buffer_slice_mid:
  "length p = i \<Longrightarrow> Buffer_slice (p @ rest) i (i + k) = take k rest"
  by (simp add: Buffer_slice_def)

lemma take_drop_mid:
  "length p = i \<Longrightarrow> length x = k \<Longrightarrow> take k (drop i (p @ x @ rest)) = x"
  by simp

lemma drop_prefix: "length p = k \<Longrightarrow> drop k (p @ q) = q"
  by simp

lemma header_slices:
  fixes ts cs n payload :: buffer and v :: byte
  assumes ts: "length ts = 8" and cs: "length cs = 32" and n: "length n = 4"
  defines "buf \<equiv> KOLP_MAGIC @ [v] @ ts @ cs @ n @ payload"
  shows "length buf = 49 + length payload"
    and "take 4 buf = KOLP_MAGIC"
    and "buf ! 4 = v"
    and "take 32 (drop 13 buf) = cs"
    and "take 4 (drop 45 buf) = n"
    and "drop 49 buf = payload"
proof -
  have m: "length KOLP_MAGIC = 4"
    by (simp add: KOLP_MAGIC_bytes)
  show "length buf = 49 + length payload"
    by (simp add: buf_def m ts cs n)
  show "take 4 buf = KOLP_MAGIC"
    by (simp add: buf_def m)
  show "buf ! 4 = v"
    by (simp add: buf_def m nth_append)
  show "take 32 (drop 13 buf) = cs"
    using take_drop_mid [of "KOLP_MAGIC @ [v] @ ts" 13 cs 32 "n @ payload"]
    by (simp add: buf_def m ts cs)
  show "take 4 (drop 45 buf) = n"
    using take_drop_mid [of "KOLP_MAGIC @ [v] @ ts @ cs" 45 n 4 payload]
    by (simp add: buf_def m ts cs n)
  show "drop 49 buf = payload"
    using drop_prefix [of "KOLP_MAGIC @ [v] @ ts @ cs @ n" 49 payload]
    by (simp add: buf_def m ts cs n)
qed

lemma parseKolpFile_try_layout:
  assumes ts: "length ts = 8" and cs: "length cs = 32" and n: "length n = 4"
  shows "parseKolpFile_try P (KOLP_MAGIC @ [v] @ ts @ cs @ n @ rest) =
    (let dataBuffer = take (unat (le_word n :: 32 word)) rest in
     if utf8_decode cs \<noteq> take 32 (sha256_hex dataBuffer)
     then Inl (Error ''Checksum verification failed'')
     else bindE (JSON_parse P (utf8_decode dataBuffer)) (\<lambda>d.
          bindE (Date_toISOString P (sint (le_word ts :: 64 word))) (\<lambda>iso.
            Inr \<lparr>version = unat v, timestamp = iso, checksum = utf8_decode cs, data = d\<rparr>)))"
proof -
  let ?buf = "KOLP_MAGIC @ [v] @ ts @ cs @ n @ rest"
  have len: "49 \<le> length ?buf"
    using ts cs n by (simp add: KOLP_MAGIC_bytes)
  have magic: "utf8_decode (Buffer_slice ?buf 0 4) = js_of ''KOLP''"
    by (simp add: Buffer_slice_def KOLP_MAGIC_bytes js_of_def)
  have v: "readUInt8 ?buf 4 = Inr (unat v)"
    using len by (simp add: readUInt8_def KOLP_MAGIC_bytes)
  have t: "readBigInt64LE ?buf 5 = Inr (sint (le_word ts :: 64 word))"
    using len ts by (simp add: readBigInt64LE_def KOLP_MAGIC_bytes)
  have c: "Buffer_slice ?buf 13 45 = cs"
    using Buffer_slice_mid [of "KOLP_MAGIC @ [v] @ ts" 13 "cs @ n @ rest" 32] ts cs
    by (simp add: KOLP_MAGIC_bytes)
  have l: "readUInt32LE ?buf 45 = Inr (unat (le_word n :: 32 word))"
    using len take_drop_mid [of "KOLP_MAGIC @ [v] @ ts @ cs" 45 n 4 rest] ts cs n
    by (simp add: readUInt32LE_def KOLP_MAGIC_bytes)
  have d: "Buffer_slice ?buf 49 (49 + k) = take k rest" for k
    using Buffer_slice_mid [of "KOLP_MAGIC @ [v] @ ts @ cs @ n" 49 rest k] ts cs n
    by (simp add: KOLP_MAGIC_bytes)
  show ?thesis
    unfolding parseKolpFile_try_def magic v t c l d
    by (simp add: bindE_def Let_def)
qed

lemma parseKolpFile_try_createKolpFile:
  assumes str: "JSON_stringify P d = Inr (Some js)"
    and len: "length (utf8_encode js) < 4294967296"
    and now: "\<bar>now\<bar> \<le> 8640000000000000"
  shows "\<exists>buf. createKolpFile P now d = Inr buf \<and>
    parseKolpFile_try P buf =
      bindE (JSON_parse P (utf8_decode (utf8_encode js))) (\<lambda>v.
        Inr \<lparr>version = 1, timestamp = toISOString P now,
             checksum = take 32 (sha256_hex (utf8_encode js)), data = v\<rparr>)"
proof -
  let ?payload = "utf8_encode js"
  let ?cs = "utf8_encode (take 32 (sha256_hex ?payload))"
  let ?ts = "le_bytes 8 (word_of_int now :: 64 word)"
  let ?n = "le_bytes 4 (word_of_int (int (length ?payload)) :: 32 word)"
  let ?buf = "KOLP_MAGIC @ [1] @ ?ts @ ?cs @ ?n @ ?payload"
  from now have range: "- 9223372036854775808 \<le> now" "now \<le> 9223372036854775807"
    by linarith+
  have create: "createKolpFile P now d = Inr ?buf"
    by (rule createKolpFile_bytes [OF str len range])
  have stored: "utf8_decode ?cs = take 32 (sha256_hex ?payload)"
    by (rule utf8_round_trip_ascii [OF checksum_ascii])
  have n: "unat (le_word ?n :: 32 word) = length ?payload"
    using len by (simp add: le_word_le_bytes_32 unat_of_nat)
  have t: "sint (le_word ?ts :: 64 word) = now"
    using range by (simp add: le_word_le_bytes_64 sint_int64)
  have "parseKolpFile_try P ?buf =
      bindE (JSON_parse P (utf8_decode ?payload)) (\<lambda>v.
        bindE (Date_toISOString P now) (\<lambda>iso.
          Inr \<lparr>version = 1, timestamp = iso,
               checksum = take 32 (sha256_hex ?payload), data = v\<rparr>))"
    using parseKolpFile_try_layout [of ?ts ?cs ?n P 1 ?payload]
    apply (simp only: length_le_bytes length_checksum_field stored n t Let_def take_all
        order_refl simp_thms if_False)
    apply simp
    done
  then have "parseKolpFile_try P ?buf =
      bindE (JSON_parse P (utf8_decode ?payload)) (\<lambda>v.
        Inr \<lparr>version = 1, timestamp = toISOString P now,
             checksum = take 32 (sha256_hex ?payload), data = v\<rparr>)"
    using now by (simp add: Date_toISOString_def bindE_def)
  with create show ?thesis by blast
qed

lemma ascii_well_formed: "\<forall>u\<in>set s. u < 0x80 \<Longrightarrow> well_formed_utf16 s"
proof (induction s rule: well_formed_utf16.induct)
  case 1
  then show ?case by simp
next
  case (2 u)
  then have "u < 0x80" by simp
  from ascii_not_surrogate [OF this] show ?case by simp
next
  case (3 u v rest)
  then have "u < 0x80" by simp
  from ascii_not_surrogate [OF this] 3 show ?case by simp
qed

lemma utf8_length_fits: "length s < 1073741824 \<Longrightarrow> length (utf8_encode s) < 4294967296"
  using length_utf8_encode [of s] by simp

text \<open>
  A container whose payload is replaced by other bytes of the same length is rejected
  with the checksum error whenever the first 32 digits of the two digests differ.
\<close>

lemma tampered_payload_rejected:
  assumes str: "JSON_stringify P S = Inr (Some js)"
    and len: "length (utf8_encode js) < 4294967296"
    and now: "\<bar>now\<bar> \<le> 8640000000000000"
    and same: "length payload' = length (utf8_encode js)"
    and differ: "take 32 (sha256_hex payload') \<noteq> take 32 (sha256_hex (utf8_encode js))"
  shows "\<exists>header. length header = 49
    \<and> createKolpFile P now S = Inr (header @ utf8_encode js)
    \<and> parseKolpFile_try P (header @ payload') = Inl (Error ''Checksum verification failed'')"
proof -
  let ?payload = "utf8_encode js"
  let ?cs = "utf8_encode (take 32 (sha256_hex ?payload))"
  let ?ts = "le_bytes 8 (word_of_int now :: 64 word)"
  let ?n = "le_bytes 4 (word_of_int (int (length ?payload)) :: 32 word)"
  let ?header = "KOLP_MAGIC @ [1] @ ?ts @ ?cs @ ?n"
  from now have range: "- 9223372036854775808 \<le> now" "now \<le> 9223372036854775807"
    by linarith+
  have create: "createKolpFile P now S = Inr (?header @ ?payload)"
    using createKolpFile_bytes [OF str len range] by simp
  have size: "length ?header = 49"
    by (simp add: KOLP_MAGIC_bytes length_le_bytes length_checksum_field)
  have stored: "utf8_decode ?cs = take 32 (sha256_hex ?payload)"
    by (rule utf8_round_trip_ascii [OF checksum_ascii])
  have n: "unat (le_word ?n :: 32 word) = length ?payload"
    using len by (simp add: le_word_le_bytes_32 unat_of_nat)
  have "parseKolpFile_try P (KOLP_MAGIC @ [1] @ ?ts @ ?cs @ ?n @ payload')
      = Inl (Error ''Checksum verification failed'')"
    using parseKolpFile_try_layout [of ?ts ?cs ?n P 1 payload'] differ
    apply (simp only: length_le_bytes length_checksum_field stored n Let_def take_all
        order_refl simp_thms if_False same)
    apply simp
    done
  then have "parseKolpFile_try P (?header @ payload') = Inl (Error ''Checksum verification failed'')"
    by simp
  with size create show ?thesis by blast
qed

lemma parseKolpFile_try_short:
  assumes "length buf < 49"
  shows "\<exists>e. parseKolpFile_try P buf = Inl e"
  using assms
  by (simp add: parseKolpFile_try_def bindE_def readUInt8_def readBigInt64LE_def
      readUInt32LE_def)

section \<open>The claims about the codec\<close>

text \<open>
  C1 (round trip). Let \<open>S\<close> be a snapshot whose serialisation succeeds with the JSON text
  \<open>js\<close>; let \<open>S'\<close> be \<open>S\<close> after a JSON round trip, that is what \<open>JSON.parse\<close> returns on
  \<open>js\<close>. Then \<open>createKolpFile\<close> returns a buffer, and \<open>parseKolpFile\<close> on that buffer
  returns a result that is not \<open>null\<close> and whose \<open>data\<close> field is \<open>S'\<close>. The three side
  conditions hold in the runtime: the text that \<open>JSON.stringify\<close> returns is a well-formed
  string (a lone surrogate is written as an escape); its UTF-8 encoding stays below 2^32
  bytes, since a string has fewer than 2^30 code units (\<open>utf8_length_fits\<close>); and
  \<open>Date.now()\<close> is a valid time value.
\<close>

theorem C1_round_trip:
  assumes "JSON_stringify P S = Inr (Some js)"
    and "JSON_parse P js = Inr S'"
    and "well_formed_utf16 js"
    and "length (utf8_encode js) < 4294967296"
    and "\<bar>now\<bar> \<le> 8640000000000000"
  shows "\<exists>buf. createKolpFile P now S = Inr buf \<and>
    parseKolpFile P buf =
      Some \<lparr>version = 1, timestamp = toISOString P now,
            checksum = take 32 (sha256_hex (utf8_encode js)), data = S'\<rparr>"
proof -
  from parseKolpFile_try_createKolpFile [OF assms(1) assms(4) assms(5)]
  obtain buf where "createKolpFile P now S = Inr buf"
    and "parseKolpFile_try P buf =
      bindE (JSON_parse P (utf8_decode (utf8_encode js))) (\<lambda>v.
        Inr \<lparr>version = 1, timestamp = toISOString P now,
             checksum = take 32 (sha256_hex (utf8_encode js)), data = v\<rparr>)"
    by blast
  then show ?thesis
    using assms(2) utf8_round_trip [OF assms(3)] by (simp add: parseKolpFile_def bindE_def)
qed

lemma empty_snapshot_json_ascii: "\<forall>u\<in>set empty_snapshot_json. u < 0x80"
  unfolding empty_snapshot_json_def by (rule js_of_ascii) simp

lemma length_empty_snapshot_json: "length (utf8_encode empty_snapshot_json) = 66"
  by (simp add: utf8_encode_ascii [OF empty_snapshot_json_ascii])
    (simp add: empty_snapshot_json_def js_of_def)

theorem C1_round_trip_witness:
  "\<exists>buf. createKolpFile sample_platform 1762065840000 EmptySnapshot = Inr buf \<and>
    parseKolpFile sample_platform buf =
      Some \<lparr>version = 1, timestamp = js_of ''2026-11-02T06:44:00.000Z'',
            checksum = take 32 (sha256_hex (utf8_encode empty_snapshot_json)),
            data = EmptySnapshot\<rparr>"
  using C1_round_trip [of sample_platform EmptySnapshot empty_snapshot_json EmptySnapshot
      1762065840000]
    ascii_well_formed [OF empty_snapshot_json_ascii] length_empty_snapshot_json
  by (simp add: sample_platform_def)

text \<open>
  C2 (layout). For a snapshot whose serialisation succeeds, \<open>createKolpFile\<close> returns a
  buffer of 49 + N bytes, N the length of the UTF-8 JSON text: bytes 0 to 3 are "KOLP",
  byte 4 is 1, bytes 13 to 44 are the ASCII codes of the first 32 hexadecimal digits of
  the payload's SHA-256 digest, bytes 45 to 48 are N, least significant byte first, and
  the bytes from 49 on are the JSON text itself, unchanged.
\<close>

theorem C2_container_layout:
  assumes "JSON_stringify P S = Inr (Some js)"
    and "length (utf8_encode js) < 4294967296"
    and "\<bar>now\<bar> \<le> 8640000000000000"
  shows "\<exists>buf. createKolpFile P now S = Inr buf
    \<and> length buf = 49 + length (utf8_encode js)
    \<and> take 4 buf = [0x4B, 0x4F, 0x4C, 0x50]
    \<and> buf ! 4 = 1
    \<and> take 32 (drop 13 buf) = map ucast (take 32 (sha256_hex (utf8_encode js)))
    \<and> map unat (take 4 (drop 45 buf)) =
        [length (utf8_encode js) mod 256, length (utf8_encode js) div 256 mod 256,
         length (utf8_encode js) div 65536 mod 256, length (utf8_encode js) div 16777216 mod 256]
    \<and> drop 49 buf = utf8_encode js"
proof -
  let ?payload = "utf8_encode js"
  let ?cs = "utf8_encode (take 32 (sha256_hex ?payload))"
  let ?ts = "le_bytes 8 (word_of_int now :: 64 word)"
  let ?n = "le_bytes 4 (word_of_int (int (length ?payload)) :: 32 word)"
  let ?buf = "KOLP_MAGIC @ [1] @ ?ts @ ?cs @ ?n @ ?payload"
  from assms(3) have range: "- 9223372036854775808 \<le> now" "now \<le> 9223372036854775807"
    by linarith+
  have create: "createKolpFile P now S = Inr ?buf"
    by (rule createKolpFile_bytes [OF assms(1) assms(2) range])
  note slices = header_slices [of ?ts ?cs ?n 1 ?payload,
      OF length_le_bytes length_checksum_field length_le_bytes]
  have 4: "take 32 (drop 13 ?buf) = map ucast (take 32 (sha256_hex ?payload))"
    using slices(4) by (simp only: checksum_field)
  have 5: "map unat (take 4 (drop 45 ?buf)) =
        [length ?payload mod 256, length ?payload div 256 mod 256,
         length ?payload div 65536 mod 256, length ?payload div 16777216 mod 256]"
    using le_bytes_32_nat [OF assms(2)] by (simp only: slices(5))
  have 2: "take 4 ?buf = [0x4B, 0x4F, 0x4C, 0x50]"
    using slices(2) by (simp only: KOLP_MAGIC_bytes)
  show ?thesis
  proof (intro exI conjI)
    show "createKolpFile P now S = Inr ?buf" by (fact create)
    show "length ?buf = 49 + length ?payload" by (fact slices(1))
    show "take 4 ?buf = [0x4B, 0x4F, 0x4C, 0x50]" by (fact 2)
    show "?buf ! 4 = 1" by (fact slices(3))
    show "take 32 (drop 13 ?buf) = map ucast (take 32 (sha256_hex ?payload))" by (fact 4)
    show "map unat (take 4 (drop 45 ?buf)) =
        [length ?payload mod 256, length ?payload div 256 mod 256,
         length ?payload div 65536 mod 256, length ?payload div 16777216 mod 256]" by (fact 5)
    show "drop 49 ?buf = ?payload" by (fact slices(6))
  qed
qed

theorem C2_container_layout_witness:
  "\<exists>buf. createKolpFile sample_platform 1762065840000 EmptySnapshot = Inr buf
    \<and> length buf = 115
    \<and> take 4 buf = [0x4B, 0x4F, 0x4C, 0x50]
    \<and> buf ! 4 = 1
    \<and> take 32 (drop 13 buf) = map ucast (take 32 (sha256_hex (utf8_encode empty_snapshot_json)))
    \<and> map unat (take 4 (drop 45 buf)) = [66, 0, 0, 0]
    \<and> drop 49 buf = utf8_encode empty_snapshot_json"
  using C2_container_layout [of sample_platform EmptySnapshot empty_snapshot_json 1762065840000]
  by (simp add: sample_platform_def length_empty_snapshot_json)

lemma parseKolpFile_try_Inr:
  assumes "parseKolpFile_try P buf = Inr r"
  shows "49 \<le> length buf
    \<and> utf8_decode (Buffer_slice buf 0 4) = js_of ''KOLP''
    \<and> utf8_decode (Buffer_slice buf 13 45) = take 32 (sha256_hex (declared_payload buf))
    \<and> \<bar>sint (le_word (take 8 (drop 5 buf)) :: 64 word)\<bar> \<le> 8640000000000000
    \<and> (\<exists>v. JSON_parse P (utf8_decode (declared_payload buf)) = Inr v
        \<and> r = \<lparr>version = unat (buf ! 4),
                 timestamp = toISOString P (sint (le_word (take 8 (drop 5 buf)) :: 64 word)),
                 checksum = utf8_decode (Buffer_slice buf 13 45), data = v\<rparr>)"
  using assms
  by (auto simp: parseKolpFile_try_def bindE_def readUInt8_def readBigInt64LE_def
      readUInt32LE_def declared_payload_def Date_toISOString_def Let_def
      split: if_splits sum.splits)

lemma parseKolpFile_try_parse_error:
  assumes "JSON_parse P (utf8_decode (declared_payload buf)) = Inl e"
  shows "\<exists>e'. parseKolpFile_try P buf = Inl e'"
  using assms
  by (auto simp: parseKolpFile_try_def bindE_def readUInt8_def readBigInt64LE_def
      readUInt32LE_def declared_payload_def Let_def)

text \<open>
  C9 (totality). On every buffer \<open>parseKolpFile\<close> returns \<open>null\<close> or a complete result:
  a result means that the buffer holds the whole header, that the magic and the checksum
  matched, that the payload parsed, and that all four fields are filled from the buffer.
  Every exception of the body ends in \<open>null\<close>; in particular a buffer shorter than the
  header (the empty one too) and a payload that is not JSON give \<open>null\<close>. A length field
  that declares more bytes than the buffer holds falls under the same alternative.
\<close>

theorem C9_parseKolpFile_total:
  "(parseKolpFile P buf = None \<or>
     (\<exists>v. 49 \<le> length buf
        \<and> utf8_decode (Buffer_slice buf 0 4) = js_of ''KOLP''
        \<and> utf8_decode (Buffer_slice buf 13 45) = take 32 (sha256_hex (declared_payload buf))
        \<and> JSON_parse P (utf8_decode (declared_payload buf)) = Inr v
        \<and> parseKolpFile P buf =
            Some \<lparr>version = unat (buf ! 4),
                  timestamp = toISOString P (sint (le_word (take 8 (drop 5 buf)) :: 64 word)),
                  checksum = utf8_decode (Buffer_slice buf 13 45), data = v\<rparr>))
   \<and> (length buf < 49 \<longrightarrow> parseKolpFile P buf = None)
   \<and> ((\<exists>e. JSON_parse P (utf8_decode (declared_payload buf)) = Inl e) \<longrightarrow>
        parseKolpFile P buf = None)"
proof (intro conjI impI)
  show "parseKolpFile P buf = None \<or>
     (\<exists>v. 49 \<le> length buf
        \<and> utf8_decode (Buffer_slice buf 0 4) = js_of ''KOLP''
        \<and> utf8_decode (Buffer_slice buf 13 45) = take 32 (sha256_hex (declared_payload buf))
        \<and> JSON_parse P (utf8_decode (declared_payload buf)) = Inr v
        \<and> parseKolpFile P buf =
            Some \<lparr>version = unat (buf ! 4),
                  timestamp = toISOString P (sint (le_word (take 8 (drop 5 buf)) :: 64 word)),
                  checksum = utf8_decode (Buffer_slice buf 13 45), data = v\<rparr>)"
  proof (cases "parseKolpFile_try P buf")
    case (Inl e)
    then show ?thesis by (simp add: parseKolpFile_def)
  next
    case (Inr r)
    from parseKolpFile_try_Inr [OF this] Inr show ?thesis
      by (auto simp: parseKolpFile_def)
  qed
next
  assume "length buf < 49"
  from parseKolpFile_try_short [OF this, of P] show "parseKolpFile P buf = None"
    by (auto simp: parseKolpFile_def)
next
  assume "\<exists>e. JSON_parse P (utf8_decode (declared_payload buf)) = Inl e"
  then obtain e where "JSON_parse P (utf8_decode (declared_payload buf)) = Inl e" ..
  from parseKolpFile_try_parse_error [OF this] show "parseKolpFile P buf = None"
    by (auto simp: parseKolpFile_def)
qed

theorem C9_parseKolpFile_total_witness:
  "length ([] :: buffer) < 49 \<and> parseKolpFile sample_platform [] = None"
  using C9_parseKolpFile_total [of sample_platform "[]"] by simp

section \<open>Properties of the token refresh and the sync handlers\<close>

lemmas io_defs = returnIO_def bindIO_def liftE_def emit_def request_def Date_now_def
  loadTokens_def loadCredentials_def

lemma refreshAccessToken_effect:
  "\<exists>res w' rest. refreshAccessToken N w = (Inr res, w')
     \<and> trace w' = trace w @ RefreshCall # rest
     \<and> (\<forall>e\<in>set rest. is_refresh_traffic e)
     \<and> backup_file w' = backup_file w
     \<and> (truthy res \<longrightarrow> (\<exists>t'. token_file w' = Some t' \<and> access_token t' = the res))"
  by (auto simp: refreshAccessToken_def io_defs saveTokens_def Let_def truthy_def
      split: option.splits token_reply.splits prod.splits sum.splits)

lemma authenticate_none:
  "token_file w = None \<Longrightarrow> authenticate N w = (Inr (Inl ''Not authenticated''), w)"
  by (simp add: authenticate_def io_defs)

lemma authenticate_fresh:
  "token_file w = Some t \<Longrightarrow> now_of N (remote w) < expiry_date t - 60000 \<Longrightarrow>
     authenticate N w = (Inr (Inr (Some t)), w)"
  by (simp add: authenticate_def io_defs)

lemma authenticate_stale:
  "token_file w = Some t \<Longrightarrow> expiry_date t - 60000 \<le> now_of N (remote w) \<Longrightarrow>
     authenticate N w =
       (case refreshAccessToken N w of
          (Inr res, w') \<Rightarrow>
            if truthy res then (Inr (Inr (token_file w')), w')
            else (Inr (Inl ''Token refresh failed''), w')
        | (Inl e, w') \<Rightarrow> (Inl e, w'))"
  by (auto simp: authenticate_def io_defs split: prod.splits sum.splits)

lemma refresh_traffic_no_storage:
  "\<forall>e\<in>set rest. is_refresh_traffic e \<Longrightarrow>
     storage_calls rest = [] \<and> RefreshCall \<notin> set rest \<and> (\<forall>b. WriteBackup b \<notin> set rest)"
  by (induction rest) (auto simp: storage_calls_def elim: is_refresh_traffic.elims)

lemma authenticate_effect:
  "\<exists>a w1 pre. authenticate N w = (Inr a, w1) \<and> trace w1 = trace w @ pre
     \<and> storage_calls pre = [] \<and> (\<forall>b. WriteBackup b \<notin> set pre)
     \<and> backup_file w1 = backup_file w
     \<and> (pre = [] \<or> (\<exists>rest. pre = RefreshCall # rest \<and> RefreshCall \<notin> set rest))
     \<and> (case a of
           Inl msg \<Rightarrow> msg = ''Not authenticated'' \<or> msg = ''Token refresh failed''
         | Inr tokens \<Rightarrow> tokens \<noteq> None)"
proof (cases "token_file w")
  case None
  then show ?thesis by (simp add: authenticate_none storage_calls_def)
next
  case (Some t)
  show ?thesis
  proof (cases "now_of N (remote w) < expiry_date t - 60000")
    case True
    with Some show ?thesis by (simp add: authenticate_fresh storage_calls_def)
  next
    case False
    then have stale: "expiry_date t - 60000 \<le> now_of N (remote w)" by simp
    from refreshAccessToken_effect [of N w] obtain res w' rest where
      r: "refreshAccessToken N w = (Inr res, w')"
      and t: "trace w' = trace w @ RefreshCall # rest"
      and rest: "\<forall>e\<in>set rest. is_refresh_traffic e"
      and b: "backup_file w' = backup_file w"
      and tok: "truthy res \<longrightarrow> (\<exists>t'. token_file w' = Some t' \<and> access_token t' = the res)"
      by blast
    from refresh_traffic_no_storage [OF rest] have
      "storage_calls (RefreshCall # rest) = []" "RefreshCall \<notin> set rest"
      "\<forall>b. WriteBackup b \<notin> set (RefreshCall # rest)"
      by (simp_all add: storage_calls_def)
    with r t b tok show ?thesis
      by (auto simp: authenticate_stale [OF Some stale])
  qed
qed

lemma google_sync_upload_split:
  "google_sync_upload N P d w =
     (case authenticate N w of
        (Inl e, w1) \<Rightarrow> (Failure (message_of e), w1)
      | (Inr (Inl msg), w1) \<Rightarrow> (Failure msg, w1)
      | (Inr (Inr tokens), w1) \<Rightarrow>
          (case upload_body N P d tokens w1 of
             (Inl e, w') \<Rightarrow> (Failure (message_of e), w')
           | (Inr r, w') \<Rightarrow> (r, w')))"
  by (simp add: google_sync_upload_def google_sync_upload_try_def bindIO_def returnIO_def
      split: prod.splits sum.splits)

lemma google_sync_download_split:
  "google_sync_download N P w =
     (case authenticate N w of
        (Inl e, w1) \<Rightarrow> (Failure (message_of e), w1)
      | (Inr (Inl msg), w1) \<Rightarrow> (Failure msg, w1)
      | (Inr (Inr tokens), w1) \<Rightarrow>
          (case download_body N P tokens w1 of
             (Inl e, w') \<Rightarrow> (Failure (message_of e), w')
           | (Inr r, w') \<Rightarrow> (r, w')))"
  by (simp add: google_sync_download_def google_sync_download_try_def bindIO_def returnIO_def
      split: prod.splits sum.splits)

lemma storage_calls_append: "storage_calls (xs @ ys) = storage_calls xs @ storage_calls ys"
  by (simp add: storage_calls_def)

subsection \<open>The listing request is never sent\<close>

text \<open>
  The path of the listing has a space, so the constructor of the request throws, whatever
  the access token: \<open>findKolpFileInDrive\<close> rejects with that error and nothing is sent.
\<close>

lemma find_path_value:
  "find_path = ''/drive/v3/files?q=name%20contains%20'kolp_backup'%20and%20mimeType%3D'application%2Foctet-stream'%20and%20trashed%3Dfalse&orderBy=modifiedTime desc&pageSize=1''"
  by (simp add: find_path_def encodeURIComponent_def uri_unreserved_def percent_def)

lemma find_path_space: "filter invalid_path_char find_path = '' ''"
  by (simp add: find_path_value invalid_path_char_def)

lemma find_path_unescaped: "list_ex invalid_path_char find_path"
  by (simp add: find_path_def invalid_path_char_def)

lemma ClientRequest_find_path:
  "ClientRequest find_path h = Inl (TypeError ''Request path contains unescaped characters'')"
  by (simp add: ClientRequest_def find_path_unescaped)

lemma findKolpFileInDrive_throws:
  "findKolpFileInDrive N accessToken w
     = (Inl (TypeError ''Request path contains unescaped characters''), w)"
  by (simp add: findKolpFileInDrive_def bindIO_def liftE_def ClientRequest_find_path)

lemma upload_body_effect:
  "\<exists>e w' new. upload_body N P d tokens w = (Inl e, w') \<and> trace w' = trace w @ new
     \<and> remote w' = remote w \<and> token_file w' = token_file w
     \<and> (new = [] \<or> (\<exists>buf. new = [WriteBackup buf]))"
  by (auto simp: upload_body_def io_defs write_kolp_file_def access_token_of_def
      findKolpFileInDrive_throws Let_def
      split: option.splits prod.splits sum.splits)

lemma upload_body_throws:
  assumes "createKolpFile P (now_of N (remote w)) d = Inr buf"
    and "backup_write_fault N (remote w) = None"
  shows "upload_body N P d (Some t) w
     = (Inl (TypeError ''Request path contains unescaped characters''),
        w\<lparr>trace := trace w @ [WriteBackup buf], backup_file := Some buf\<rparr>)"
  using assms
  by (simp add: upload_body_def io_defs write_kolp_file_def access_token_of_def
      findKolpFileInDrive_throws Let_def)

lemma download_body_throws:
  "download_body N P (Some t) w
     = (Inl (TypeError ''Request path contains unescaped characters''), w)"
  by (simp add: download_body_def io_defs access_token_of_def findKolpFileInDrive_throws)

lemma handlers_fresh:
  assumes "token_file w = Some t" and "now_of N (remote w) < expiry_date t - 60000"
  shows "google_sync_upload N P d w =
      (case upload_body N P d (Some t) w of
         (Inl e, w') \<Rightarrow> (Failure (message_of e), w') | (Inr r, w') \<Rightarrow> (r, w'))"
    and "google_sync_download N P w =
      (case download_body N P (Some t) w of
         (Inl e, w') \<Rightarrow> (Failure (message_of e), w') | (Inr r, w') \<Rightarrow> (r, w'))"
  by (simp_all add: google_sync_upload_split google_sync_download_split
      authenticate_fresh [OF assms])

lemma upload_sends_nothing:
  "\<exists>msg w' new. google_sync_upload N P d w = (Failure msg, w') \<and> trace w' = trace w @ new
     \<and> storage_calls new = []"
proof -
  from authenticate_effect [of N w] obtain a w1 pre where
    a: "authenticate N w = (Inr a, w1)" and t1: "trace w1 = trace w @ pre"
    and s1: "storage_calls pre = []"
    by blast
  show ?thesis
  proof (cases a)
    case (Inl msg)
    with a t1 s1 show ?thesis
      by (auto simp: google_sync_upload_split)
  next
    case (Inr tokens)
    from upload_body_effect [of N P d tokens w1] obtain e w' new where
      b: "upload_body N P d tokens w1 = (Inl e, w')" and t2: "trace w' = trace w1 @ new"
      and s2: "new = [] \<or> (\<exists>buf. new = [WriteBackup buf])"
      by blast
    have "trace w' = trace w @ (pre @ new)" using t1 t2 by simp
    moreover have "storage_calls (pre @ new) = []"
      using s1 s2 by (auto simp: storage_calls_append storage_calls_def)
    moreover have "google_sync_upload N P d w = (Failure (message_of e), w')"
      using a Inr b by (simp add: google_sync_upload_split)
    ultimately show ?thesis by blast
  qed
qed

lemma download_sends_nothing:
  "\<exists>msg w' new. google_sync_download N P w = (Failure msg, w') \<and> trace w' = trace w @ new
     \<and> storage_calls new = [] \<and> (\<forall>b. WriteBackup b \<notin> set new)
     \<and> backup_file w' = backup_file w
     \<and> (msg = ''Not authenticated'' \<or> msg = ''Token refresh failed''
         \<or> msg = ''Request path contains unescaped characters'')"
proof -
  from authenticate_effect [of N w] obtain a w1 pre where
    a: "authenticate N w = (Inr a, w1)" and t1: "trace w1 = trace w @ pre"
    and s1: "storage_calls pre = []" and nw: "\<forall>b. WriteBackup b \<notin> set pre"
    and bf: "backup_file w1 = backup_file w"
    and res: "case a of
           Inl msg \<Rightarrow> msg = ''Not authenticated'' \<or> msg = ''Token refresh failed''
         | Inr tokens \<Rightarrow> tokens \<noteq> None"
    by blast
  show ?thesis
  proof (cases a)
    case (Inl msg)
    with a res have "google_sync_download N P w = (Failure msg, w1)"
      "msg = ''Not authenticated'' \<or> msg = ''Token refresh failed''"
      by (simp_all add: google_sync_download_split)
    with t1 s1 nw bf show ?thesis by blast
  next
    case (Inr tokens)
    with res obtain t where "tokens = Some t" by auto
    with a Inr have
      "google_sync_download N P w = (Failure ''Request path contains unescaped characters'', w1)"
      by (simp add: google_sync_download_split download_body_throws message_of_def)
    with t1 s1 nw bf show ?thesis by blast
  qed
qed

text \<open>After a refresh, whatever its outcome, the handler goes on with a body or stops.\<close>

lemma stale_run:
  assumes tok: "token_file w = Some t" and stale: "expiry_date t - 60000 \<le> now_of N (remote w)"
    and body: "\<And>t' w1. \<exists>r w' new. body (Some t') w1 = (r, w') \<and> trace w' = trace w1 @ new
        \<and> RefreshCall \<notin> set new"
    and handler: "handler w =
       (case authenticate N w of
          (Inl e, w1) \<Rightarrow> (Failure (message_of e), w1)
        | (Inr (Inl msg), w1) \<Rightarrow> (Failure msg, w1)
        | (Inr (Inr tokens), w1) \<Rightarrow>
            (case body tokens w1 of
               (Inl e, w') \<Rightarrow> (Failure (message_of e), w')
             | (Inr r, w') \<Rightarrow> (r, w')))"
  shows "\<exists>r w' rest. handler w = (r, w') \<and> trace w' = trace w @ RefreshCall # rest
       \<and> RefreshCall \<notin> set rest
       \<and> (fst (refreshAccessToken N w) = Inr None \<longrightarrow>
            r = Failure ''Token refresh failed'' \<and> storage_calls rest = [])"
proof -
  from refreshAccessToken_effect [of N w] obtain res w1 rest where
    r: "refreshAccessToken N w = (Inr res, w1)"
    and t: "trace w1 = trace w @ RefreshCall # rest"
    and rest: "\<forall>e\<in>set rest. is_refresh_traffic e"
    and tk: "truthy res \<longrightarrow> (\<exists>t'. token_file w1 = Some t' \<and> access_token t' = the res)"
    by blast
  note quiet = refresh_traffic_no_storage [OF rest]
  show ?thesis
  proof (cases "truthy res")
    case False
    then have "handler w = (Failure ''Token refresh failed'', w1)"
      using r by (simp add: handler authenticate_stale [OF tok stale])
    with t quiet show ?thesis by auto
  next
    case True
    with tk obtain t' where t': "token_file w1 = Some t'" by blast
    from body [of t' w1] obtain rb w' new where
      b: "body (Some t') w1 = (rb, w')" and tn: "trace w' = trace w1 @ new"
      and nr: "RefreshCall \<notin> set new"
      by blast
    have "\<exists>r'. handler w = (r', w')"
      using r True t' b by (simp add: handler authenticate_stale [OF tok stale] split: sum.splits)
    moreover have "trace w' = trace w @ RefreshCall # (rest @ new)"
      using t tn by simp
    moreover have "RefreshCall \<notin> set (rest @ new)"
      using quiet nr by simp
    moreover have "fst (refreshAccessToken N w) \<noteq> Inr None"
      using r True by (auto simp: truthy_def split: option.splits)
    ultimately show ?thesis by blast
  qed
qed

text \<open>
  The refresh policy of the two handlers. With a stored token that expires within 60
  seconds or has expired, \<open>refreshAccessToken\<close> is called once, before anything else, and
  when it resolves to \<open>null\<close> the handler returns 'Token refresh failed' and no request
  goes to the storage API.
\<close>

lemma stale_upload_calls:
  assumes "token_file w = Some t" and "expiry_date t - 60000 \<le> now_of N (remote w)"
  shows "\<exists>r w' rest. google_sync_upload N P d w = (r, w')
       \<and> trace w' = trace w @ RefreshCall # rest \<and> RefreshCall \<notin> set rest
       \<and> (fst (refreshAccessToken N w) = Inr None \<longrightarrow>
            r = Failure ''Token refresh failed'' \<and> storage_calls rest = [])"
proof (rule stale_run [OF assms, of "upload_body N P d"])
  show "\<exists>r w' new. upload_body N P d (Some t') w1 = (r, w') \<and> trace w' = trace w1 @ new
        \<and> RefreshCall \<notin> set new" for t' w1
    using upload_body_effect [of N P d "Some t'" w1] by auto
  show "google_sync_upload N P d w =
       (case authenticate N w of
          (Inl e, w1) \<Rightarrow> (Failure (message_of e), w1)
        | (Inr (Inl msg), w1) \<Rightarrow> (Failure msg, w1)
        | (Inr (Inr tokens), w1) \<Rightarrow>
            (case upload_body N P d tokens w1 of
               (Inl e, w') \<Rightarrow> (Failure (message_of e), w')
             | (Inr r, w') \<Rightarrow> (r, w')))"
    by (rule google_sync_upload_split)
qed

lemma stale_download_calls:
  assumes "token_file w = Some t" and "expiry_date t - 60000 \<le> now_of N (remote w)"
  shows "\<exists>r w' rest. google_sync_download N P w = (r, w')
       \<and> trace w' = trace w @ RefreshCall # rest \<and> RefreshCall \<notin> set rest
       \<and> (fst (refreshAccessToken N w) = Inr None \<longrightarrow>
            r = Failure ''Token refresh failed'' \<and> storage_calls rest = [])"
proof (rule stale_run [OF assms, of "download_body N P"])
  show "\<exists>r w' new. download_body N P (Some t') w1 = (r, w') \<and> trace w' = trace w1 @ new
        \<and> RefreshCall \<notin> set new" for t' w1
    by (simp add: download_body_throws)
  show "google_sync_download N P w =
       (case authenticate N w of
          (Inl e, w1) \<Rightarrow> (Failure (message_of e), w1)
        | (Inr (Inl msg), w1) \<Rightarrow> (Failure msg, w1)
        | (Inr (Inr tokens), w1) \<Rightarrow>
            (case download_body N P tokens w1 of
               (Inl e, w') \<Rightarrow> (Failure (message_of e), w')
             | (Inr r, w') \<Rightarrow> (r, w')))"
    by (rule google_sync_download_split)
qed

subsection \<open>The lines after the listing\<close>

lemma upload_after_find_calls:
  "\<exists>r w' new now' rest. upload_after_find N P at buf res w = (r, w')
     \<and> trace w' = trace w @ new
     \<and> (if truthy res then [FilesDelete at (the res)] else [])
          @ [FilesUpload at (backup_filename P now') buf] = new @ rest"
  by (auto simp: upload_after_find_def io_defs deleteFileFromDrive_def uploadToGoogleDrive_def
      truthy_def Let_def
      split: option.splits prod.splits sum.splits)

lemma delete_is_storage_call: "is_delete e \<Longrightarrow> is_storage_call e"
  by (cases e) simp_all

lemma prefix_deletes:
  "(if c then [FilesDelete at fid] else []) @ [FilesUpload at name buf] = new @ rest \<Longrightarrow>
     length (filter is_delete new) \<le> 1"
proof -
  assume eq: "(if c then [FilesDelete at fid] else []) @ [FilesUpload at name buf] = new @ rest"
  have "length (filter is_delete new) \<le> length (filter is_delete (new @ rest))" by simp
  also have "\<dots> = length (filter is_delete
      ((if c then [FilesDelete at fid] else []) @ [FilesUpload at name buf]))"
    by (simp only: eq)
  also have "\<dots> \<le> 1" by simp
  finally show ?thesis .
qed

lemma download_after_find_effect:
  "\<exists>r w' new. download_after_find N P at fileId w = (r, w') \<and> trace w' = trace w @ new
     \<and> ((\<forall>b. WriteBackup b \<notin> set new) \<and> backup_file w' = backup_file w
          \<and> ((\<exists>msg. r = Inr (Failure msg)
                 \<and> (msg = ''No backup found in Google Drive'' \<or> msg = ''Download failed''
                     \<or> msg = ''Invalid KOLP file''))
              \<or> (\<exists>m. r = Inl (TypeError m)))
        \<or> (\<exists>b k fid. fileId = Some fid \<and> new = [FilesGet at fid, WriteBackup b]
              \<and> fst (files_get_media N at fid (remote w)) = DownloadBody b
              \<and> parseKolpFile P b = Some k
              \<and> (r = Inr (Success k) \<and> backup_file w' = Some b
                  \<or> (\<exists>msg left. r = Inl (Error msg)
                        \<and> backup_write_fault N (remote w') = Some (msg, left)
                        \<and> backup_file w' = left))))"
  by (auto simp: download_after_find_def io_defs write_kolp_file_def
      downloadFromGoogleDrive_def ClientRequest_def truthy_def Let_def
      split: option.splits prod.splits sum.splits download_reply.splits)

subsection \<open>The worked example\<close>

lemma sample_container:
  "\<exists>buf. createKolpFile sample_platform 1762065840000 EmptySnapshot = Inr buf"
  using createKolpFile_bytes [of sample_platform EmptySnapshot empty_snapshot_json 1762065840000]
  by (simp add: sample_platform_def length_empty_snapshot_json)

lemma sample_backups: "backups (remote sample_world) = [old_backup]"
  by (simp add: sample_world_def backups_def is_backup_def old_backup_def js_of_def)

lemma sample_fresh:
  "token_file sample_world = Some sample_tokens"
  "now_of drive_env (remote sample_world) < expiry_date sample_tokens - 60000"
  by (simp_all add: sample_world_def sample_tokens_def drive_env_def)

text \<open>
  What the lines after the listing are written to do, on the store of the example: had
  the listing resolved to the old object, they would delete it and upload the new
  container, and the store would hold one backup object, the new one.
\<close>

lemma sample_requests_accepted:
  "ClientRequest ''/drive/v3/files/old-backup'' ''Bearer ya29.sample'' = Inr ()"
  "ClientRequest ''/upload/drive/v3/files?uploadType=multipart'' ''Bearer ya29.sample'' = Inr ()"
  by (simp_all add: ClientRequest_def invalid_path_char_def invalid_header_char_def)

lemma sample_backup_filename:
  "is_backup \<lparr>file_id = fid, file_name = backup_filename sample_platform now,
      mime_type = ''application/octet-stream'', file_trashed = False, modified_time = m,
      file_content = c\<rparr>"
  by (simp add: is_backup_def backup_filename_def sample_platform_def js_of_def)

lemma sample_upload_after_find:
  "\<exists>w'. upload_after_find drive_env sample_platform ''ya29.sample'' buf (Some ''old-backup'')
           sample_world = (Inr (Success ''nnnnnnnnnnn''), w')
     \<and> trace w' = [FilesDelete ''ya29.sample'' ''old-backup'',
                    FilesUpload ''ya29.sample'' (backup_filename sample_platform 1762065840000) buf]
     \<and> map file_id (backups (remote w')) = [''nnnnnnnnnnn'']
     \<and> map file_content (backups (remote w')) = [buf]"
  by (simp add: upload_after_find_def deleteFileFromDrive_def uploadToGoogleDrive_def io_defs
      sample_requests_accepted drive_env_def drive_delete_def drive_upload_def fresh_id_def
      sample_world_def old_backup_def truthy_def backups_def sample_backup_filename Let_def)

lemma parseKolpFile_empty: "parseKolpFile P [] = None"
  using parseKolpFile_try_short [of "[]" P] by (auto simp: parseKolpFile_def)

section \<open>The claims about the sync handlers\<close>

text \<open>
  C10 (at most one delete). No invocation of \<open>google-sync-upload\<close> sends more than one
  delete request, whatever the outside world holds and answers. This is so by the lines
  that follow the listing (685 to 692): for whatever \<open>findKolpFileInDrive\<close> resolves to,
  they send at most one delete, of the identifier it resolved to and only when there is
  one, and then the upload. The response handler of \<open>findKolpFileInDrive\<close> resolves to the
  first identifier of the listing or to \<open>null\<close>, and the path it asks for has page size 1.
  (That path has an unescaped space, so the request is refused before it is sent and an
  invocation sends no request at all: see C7.)
\<close>

theorem C10_at_most_one_delete:
  "(\<exists>r w' new. google_sync_upload N P d w = (r, w') \<and> trace w' = trace w @ new
      \<and> length (filter is_delete new) \<le> 1)
   \<and> (\<forall>at buf res. \<exists>r w' new now' rest. upload_after_find N P at buf res w = (r, w')
        \<and> trace w' = trace w @ new
        \<and> (if truthy res then [FilesDelete at (the res)] else [])
             @ [FilesUpload at (backup_filename P now') buf] = new @ rest
        \<and> length (filter is_delete new) \<le> 1)
   \<and> (\<forall>response. first_file_id response = None
         \<or> (\<exists>f fs. response = ListJson (Some (f # fs)) \<and> first_file_id response = Some f))
   \<and> (\<exists>pre. find_path = pre @ ''&pageSize=1'')"
proof (intro conjI allI)
  from upload_sends_nothing [of N P d w] obtain msg w' new where
    "google_sync_upload N P d w = (Failure msg, w')" "trace w' = trace w @ new"
    "storage_calls new = []"
    by blast
  moreover from this have "filter is_delete new = []"
    by (auto simp: storage_calls_def filter_empty_conv dest: delete_is_storage_call)
  ultimately show "\<exists>r w' new. google_sync_upload N P d w = (r, w') \<and> trace w' = trace w @ new
      \<and> length (filter is_delete new) \<le> 1"
    by auto
next
  fix at buf res
  from upload_after_find_calls [of N P at buf res w] obtain r w' new now' rest where
    "upload_after_find N P at buf res w = (r, w')" "trace w' = trace w @ new"
    and eq: "(if truthy res then [FilesDelete at (the res)] else [])
          @ [FilesUpload at (backup_filename P now') buf] = new @ rest"
    by blast
  moreover from prefix_deletes [OF eq] have "length (filter is_delete new) \<le> 1" .
  ultimately show "\<exists>r w' new now' rest. upload_after_find N P at buf res w = (r, w')
        \<and> trace w' = trace w @ new
        \<and> (if truthy res then [FilesDelete at (the res)] else [])
             @ [FilesUpload at (backup_filename P now') buf] = new @ rest
        \<and> length (filter is_delete new) \<le> 1"
    by blast
next
  fix response
  show "first_file_id response = None
         \<or> (\<exists>f fs. response = ListJson (Some (f # fs)) \<and> first_file_id response = Some f)"
    by (auto simp: first_file_id_def split: list_reply.splits option.splits list.splits)
next
  show "\<exists>pre. find_path = pre @ ''&pageSize=1''"
    by (simp add: find_path_def)
qed

text \<open>
  C7 (upload on a store with one backup), at the input of the scenario: a stored token
  valid for another hour, the empty snapshot, a store that holds one backup object.
  \<open>google-sync-upload\<close> encodes the snapshot and writes the local copy; the listing is
  then refused before it is sent, because its path has an unescaped space, and the
  handler returns that error. No listing, no delete and no upload is sent: the store
  holds the old object and the new container is not in it.
\<close>

theorem C7_upload_sends_nothing:
  "\<exists>buf w'. createKolpFile sample_platform 1762065840000 EmptySnapshot = Inr buf
     \<and> google_sync_upload drive_env sample_platform EmptySnapshot sample_world
         = (Failure ''Request path contains unescaped characters'', w')
     \<and> trace w' = [WriteBackup buf]
     \<and> backup_file w' = Some buf
     \<and> backups (remote sample_world) = [old_backup]
     \<and> remote w' = remote sample_world"
proof -
  from sample_container obtain buf where
    buf: "createKolpFile sample_platform 1762065840000 EmptySnapshot = Inr buf"
    by blast
  have enc: "createKolpFile sample_platform (now_of drive_env (remote sample_world)) EmptySnapshot
      = Inr buf"
    using buf by (simp add: sample_world_def drive_env_def)
  have ok: "backup_write_fault drive_env (remote sample_world) = None"
    by (simp add: drive_env_def)
  have "google_sync_upload drive_env sample_platform EmptySnapshot sample_world
      = (Failure ''Request path contains unescaped characters'',
         sample_world\<lparr>trace := trace sample_world @ [WriteBackup buf], backup_file := Some buf\<rparr>)"
    by (simp add: handlers_fresh(1) [OF sample_fresh] upload_body_throws [OF enc ok]
        message_of_def)
  moreover have "trace sample_world = []" by (simp add: sample_world_def)
  ultimately show ?thesis using buf sample_backups by simp
qed

text \<open>
  C4 (refresh policy), the part that the code does not keep. With a stored token that
  expires more than 60 seconds from now, neither handler calls \<open>refreshAccessToken\<close>, and
  each goes on to \<open>findKolpFileInDrive\<close> with the stored access token; but no remote call
  proceeds: the listing is refused before it is sent, the download returns that error
  having done nothing, and the upload returns a failure having sent nothing.
\<close>

theorem C4_fresh_token_no_remote_call:
  assumes "token_file w = Some t" and "now_of N (remote w) < expiry_date t - 60000"
  shows "google_sync_download N P w
           = (Failure ''Request path contains unescaped characters'', w)
    \<and> (\<exists>msg w' new. google_sync_upload N P d w = (Failure msg, w')
          \<and> trace w' = trace w @ new \<and> RefreshCall \<notin> set new \<and> storage_calls new = []
          \<and> remote w' = remote w)"
proof
  show "google_sync_download N P w
           = (Failure ''Request path contains unescaped characters'', w)"
    by (simp add: handlers_fresh(2) [OF assms] download_body_throws message_of_def)
  from upload_body_effect [of N P d "Some t" w] obtain e w' new where
    "upload_body N P d (Some t) w = (Inl e, w')" "trace w' = trace w @ new"
    "remote w' = remote w" "new = [] \<or> (\<exists>buf. new = [WriteBackup buf])"
    by blast
  then show "\<exists>msg w' new. google_sync_upload N P d w = (Failure msg, w')
          \<and> trace w' = trace w @ new \<and> RefreshCall \<notin> set new \<and> storage_calls new = []
          \<and> remote w' = remote w"
    by (auto simp: handlers_fresh(1) [OF assms] storage_calls_def)
qed

theorem C4_fresh_token_no_remote_call_witness:
  "google_sync_download drive_env sample_platform sample_world
     = (Failure ''Request path contains unescaped characters'', sample_world)"
  using C4_fresh_token_no_remote_call [OF sample_fresh, of sample_platform EmptySnapshot]
  by (rule conjunct1)

text \<open>
  C6 (download writes after decoding). \<open>google-sync-download\<close> writes the local backup
  file only after \<open>parseKolpFile\<close> has accepted the downloaded bytes. The lines that
  follow the listing (714 to 730), for whatever \<open>findKolpFileInDrive\<close> resolves to, either
  write nothing, leave the file as it was and end in a failure (no backup found, download
  failed, invalid container, or a request that Node refuses), or send one download, get
  bytes that \<open>parseKolpFile\<close> accepts, and write exactly those bytes, returning the parsed
  container unless the write itself throws. And every invocation of the handler returns
  a failed result, writes nothing and leaves the file unchanged: with no token, with a
  failed refresh, and otherwise because the listing is refused before it is sent.
\<close>

theorem C6_download_write_after_decode:
  "(\<exists>msg w' new. google_sync_download N P w = (Failure msg, w') \<and> trace w' = trace w @ new
      \<and> (\<forall>b. WriteBackup b \<notin> set new) \<and> backup_file w' = backup_file w
      \<and> (msg = ''Not authenticated'' \<or> msg = ''Token refresh failed''
          \<or> msg = ''Request path contains unescaped characters''))
   \<and> (\<forall>at fileId. \<exists>r w' new. download_after_find N P at fileId w = (r, w')
        \<and> trace w' = trace w @ new
        \<and> ((\<forall>b. WriteBackup b \<notin> set new) \<and> backup_file w' = backup_file w
             \<and> ((\<exists>msg. r = Inr (Failure msg)
                    \<and> (msg = ''No backup found in Google Drive'' \<or> msg = ''Download failed''
                        \<or> msg = ''Invalid KOLP file''))
                 \<or> (\<exists>m. r = Inl (TypeError m)))
           \<or> (\<exists>b k fid. fileId = Some fid \<and> new = [FilesGet at fid, WriteBackup b]
                 \<and> fst (files_get_media N at fid (remote w)) = DownloadBody b
                 \<and> parseKolpFile P b = Some k
                 \<and> (r = Inr (Success k) \<and> backup_file w' = Some b
                     \<or> (\<exists>msg left. r = Inl (Error msg)
                           \<and> backup_write_fault N (remote w') = Some (msg, left)
                           \<and> backup_file w' = left)))))"
proof (intro conjI allI)
  from download_sends_nothing [of N P w]
  show "\<exists>msg w' new. google_sync_download N P w = (Failure msg, w') \<and> trace w' = trace w @ new
      \<and> (\<forall>b. WriteBackup b \<notin> set new) \<and> backup_file w' = backup_file w
      \<and> (msg = ''Not authenticated'' \<or> msg = ''Token refresh failed''
          \<or> msg = ''Request path contains unescaped characters'')"
    by blast
next
  fix at fileId
  show "\<exists>r w' new. download_after_find N P at fileId w = (r, w')
        \<and> trace w' = trace w @ new
        \<and> ((\<forall>b. WriteBackup b \<notin> set new) \<and> backup_file w' = backup_file w
             \<and> ((\<exists>msg. r = Inr (Failure msg)
                    \<and> (msg = ''No backup found in Google Drive'' \<or> msg = ''Download failed''
                        \<or> msg = ''Invalid KOLP file''))
                 \<or> (\<exists>m. r = Inl (TypeError m)))
           \<or> (\<exists>b k fid. fileId = Some fid \<and> new = [FilesGet at fid, WriteBackup b]
                 \<and> fst (files_get_media N at fid (remote w)) = DownloadBody b
                 \<and> parseKolpFile P b = Some k
                 \<and> (r = Inr (Success k) \<and> backup_file w' = Some b
                     \<or> (\<exists>msg left. r = Inl (Error msg)
                           \<and> backup_write_fault N (remote w') = Some (msg, left)
                           \<and> backup_file w' = left))))"
    by (rule download_after_find_effect)
qed

lemma sample_request_accepted:
  "ClientRequest ''/drive/v3/files/old-backup?alt=media'' ''Bearer ya29.sample'' = Inr ()"
  by (simp add: ClientRequest_def invalid_path_char_def invalid_header_char_def)

lemma sample_download:
  "downloadFromGoogleDrive drive_env ''ya29.sample'' ''old-backup'' sample_world
     = (Inr (Some []), sample_world\<lparr>trace := [FilesGet ''ya29.sample'' ''old-backup'']\<rparr>)"
  by (simp add: sample_request_accepted io_defs downloadFromGoogleDrive_def drive_env_def
      drive_get_def sample_world_def old_backup_def)

lemma sample_download_invalid:
  "download_after_find drive_env sample_platform ''ya29.sample'' (Some ''old-backup'') sample_world
     = (Inr (Failure ''Invalid KOLP file''),
        sample_world\<lparr>trace := [FilesGet ''ya29.sample'' ''old-backup'']\<rparr>)"
  by (simp add: download_after_find_def truthy_def sample_download bindIO_def returnIO_def
      parseKolpFile_empty)

theorem C6_download_write_after_decode_witness:
  "(\<exists>msg w'. google_sync_download drive_env sample_platform sample_world = (Failure msg, w')
      \<and> backup_file w' = backup_file sample_world)
   \<and> (\<exists>w'. download_after_find drive_env sample_platform ''ya29.sample'' (Some ''old-backup'')
              sample_world = (Inr (Failure ''Invalid KOLP file''), w')
      \<and> backup_file w' = backup_file sample_world)"
proof
  from C6_download_write_after_decode [of drive_env sample_platform sample_world]
  show "\<exists>msg w'. google_sync_download drive_env sample_platform sample_world = (Failure msg, w')
      \<and> backup_file w' = backup_file sample_world"
    by blast
  show "\<exists>w'. download_after_find drive_env sample_platform ''ya29.sample'' (Some ''old-backup'')
              sample_world = (Inr (Failure ''Invalid KOLP file''), w')
      \<and> backup_file w' = backup_file sample_world"
    by (simp add: sample_download_invalid)
qed

section \<open>Properties of the authorization flow\<close>

lemma exits_append: "exits (xs @ ys) = exits xs @ exits ys"
  by (simp add: exits_def)



lemma auth_run_snoc: "auth_run fl (xs @ [x]) = auth_step (auth_run fl xs) x"
  by (simp add: auth_run_def)

lemma auth_step_state: "fl_state (auth_step fl x) = fl_state fl"
  by (cases x)
    (auto simp: act_def resolve_def auth_catch_def finish_handler_def Let_def
      split: option.splits suspended.splits exchange_outcome.splits userinfo_outcome.splits
        save_fault.splits)

lemma auth_run_state: "fl_state (auth_run fl xs) = fl_state fl"
  by (induction xs rule: rev_induct) (simp_all add: auth_run_snoc auth_step_state, simp add: auth_run_def)



















section \<open>The claims about the authorization flow\<close>


text \<open>
  C5 (state mismatch). In a flow started by \<open>startGoogleAuth\<close> with the state \<open>st\<close>, a
  request to \<open>/callback\<close> whose \<open>state\<close> parameter is not the string \<open>st\<close> (another
  string, none, or several) is answered with 400, stops the listener and calls
  \<open>resolve\<close> with the failure 'Invalid state', which settles a flow still pending;
  no exchange is started and neither the token file nor the credentials file changes,
  whatever the \<open>code\<close> parameter is.
\<close>

theorem C5_state_mismatch:
  assumes "returnedState \<noteq> QString st"
  shows "fl_log (auth_step (auth_run (startGoogleAuth cid secret st tokens creds) inputs)
                   (Request ''/callback'' code returnedState))
           = fl_log (auth_run (startGoogleAuth cid secret st tokens creds) inputs)
               @ [Respond 400, ServerClose, ResolveCall (AuthFailure ''Invalid state'')]
    \<and> fl_token_file (auth_step (auth_run (startGoogleAuth cid secret st tokens creds) inputs)
                   (Request ''/callback'' code returnedState))
        = fl_token_file (auth_run (startGoogleAuth cid secret st tokens creds) inputs)
    \<and> fl_credentials_file (auth_step (auth_run (startGoogleAuth cid secret st tokens creds) inputs)
                   (Request ''/callback'' code returnedState))
        = fl_credentials_file (auth_run (startGoogleAuth cid secret st tokens creds) inputs)
    \<and> fl_handlers (auth_step (auth_run (startGoogleAuth cid secret st tokens creds) inputs)
                   (Request ''/callback'' code returnedState))
        = fl_handlers (auth_run (startGoogleAuth cid secret st tokens creds) inputs)
    \<and> (fl_resolved (auth_run (startGoogleAuth cid secret st tokens creds) inputs) = None \<longrightarrow>
        fl_resolved (auth_step (auth_run (startGoogleAuth cid secret st tokens creds) inputs)
                   (Request ''/callback'' code returnedState))
          = Some (AuthFailure ''Invalid state''))"
proof -
  have "fl_state (auth_run (startGoogleAuth cid secret st tokens creds) inputs) = st"
    by (simp add: auth_run_state startGoogleAuth_def)
  with assms show ?thesis
    by (simp add: act_def resolve_def)
qed

theorem C5_state_mismatch_witness:
  "fl_resolved (auth_step (auth_run (startGoogleAuth ''client'' ''secret'' ''3f9c'' None None) [])
       (Request ''/callback'' (QString ''4/0Ab'') (QString ''forged'')))
     = Some (AuthFailure ''Invalid state'')
   \<and> fl_token_file (auth_step (auth_run (startGoogleAuth ''client'' ''secret'' ''3f9c'' None None) [])
       (Request ''/callback'' (QString ''4/0Ab'') (QString ''forged''))) = None
   \<and> fl_handlers (auth_step (auth_run (startGoogleAuth ''client'' ''secret'' ''3f9c'' None None) [])
       (Request ''/callback'' (QString ''4/0Ab'') (QString ''forged''))) = []"
  using C5_state_mismatch [of "QString ''forged''" "''3f9c''" "''client''" "''secret''" None None
      "[]" "QString ''4/0Ab''"]
  by (simp add: auth_run_def startGoogleAuth_def)



text \<open>
  A token response without an access token ends the handler in silence: nothing is
  answered, closed or resolved until the timer fires.
\<close>

lemma exchange_without_token:
  "fl_resolved (auth_run (startGoogleAuth cid secret st tokens creds)
      [Request ''/callback'' code (QString st), ExchangeDone 0 (ExchangeJson None [] 0)]) = None
   \<and> fl_log (auth_run (startGoogleAuth cid secret st tokens creds)
      [Request ''/callback'' code (QString st), ExchangeDone 0 (ExchangeJson None [] 0)])
       = [ExchangeCode code]"
  by (simp add: auth_run_def startGoogleAuth_def act_def finish_handler_def waiting_def truthy_def)

end
